theory Spec2Isabelle
  imports Complex_Main
begin

section \<open>Values exchanged with the outside world\<close>

text \<open>
  The interview platform of \<^verbatim>\<open>main.py\<close> talks to a text-generation model and
  parses its answers with \<^verbatim>\<open>json.loads\<close>. A parsed answer is a Python value built
  from \<^verbatim>\<open>None\<close>, booleans, integers, floats, strings, lists and dictionaries.
  A dictionary is kept as the list of its items in insertion order (its keys are
  distinct); a string is a list of characters, each standing for one code point.
  A float is either a finite rational or one of the three special values that
  \<^verbatim>\<open>json.loads\<close> accepts.
\<close>

datatype pyfloat = Finite rat | PosInf | NegInf | NaN

datatype json =
    JNull
  | JBool bool
  | JInt int
  | JFloat pyfloat
  | JStr string
  | JArr "json list"
  | JObj "(string \<times> json) list"

text \<open>
  What the \<^verbatim>\<open>try\<close> block around \<^verbatim>\<open>ollama.chat\<close> and \<^verbatim>\<open>json.loads\<close> can see:
  the call raised, the reply was not JSON (\<^verbatim>\<open>json.loads\<close> raised), or the reply
  parsed to a value.
\<close>

datatype llm_reply = CallFailed | NotJson | Json json

text \<open>
  Behaviour of the libraries that the source calls and whose tables are not part of
  the repository: Python's \<^verbatim>\<open>int\<close> on a string, and what the database driver
  stores when a value taken from the model's reply is written to a typed column
  (\<open>None\<close>: the statement raises; \<open>Some None\<close> is NULL). The program's own strings
  are stored as they are. The floating-point operations of the percentage are
  parameters as well, over a type \<open>'f\<close> of floats: the quotient of two integers, the
  product of a float and an integer, and the literal \<^verbatim>\<open>0.0\<close>.
\<close>

record 'f platform =
  int_of_str :: "string \<Rightarrow> int option"
  text_col :: "json \<Rightarrow> string option option"
  str_col :: "json \<Rightarrow> string option option"
  answer_int_col :: "json \<Rightarrow> int option option"
  score_int_col :: "json \<Rightarrow> int option option"
  truediv :: "int \<Rightarrow> int \<Rightarrow> 'f"
  times_int :: "'f \<Rightarrow> int \<Rightarrow> 'f"
  float_zero :: "'f"

section \<open>Python operations on parsed values\<close>

text \<open>\<^verbatim>\<open>d.get(k, default)\<close> on a dictionary.\<close>

definition dict_get :: "(string \<times> json) list \<Rightarrow> string \<Rightarrow> json \<Rightarrow> json" where
  "dict_get kvs k d = (case map_of kvs k of None \<Rightarrow> d | Some v \<Rightarrow> v)"

text \<open>\<^verbatim>\<open>int(x)\<close> rounds a float towards zero.\<close>

definition trunc_rat :: "rat \<Rightarrow> int" where
  "trunc_rat q = (if q < 0 then - \<lfloor>- q\<rfloor> else \<lfloor>q\<rfloor>)"

text \<open>\<^verbatim>\<open>int(x)\<close>; \<open>None\<close> when Python raises TypeError, ValueError or OverflowError.\<close>

fun py_int :: "'f platform \<Rightarrow> json \<Rightarrow> int option" where
  "py_int pf (JInt n) = Some n"
| "py_int pf (JBool b) = Some (if b then 1 else 0)"
| "py_int pf (JFloat (Finite q)) = Some (trunc_rat q)"
| "py_int pf (JFloat _) = None"
| "py_int pf (JStr s) = int_of_str pf s"
| "py_int pf _ = None"

text \<open>\<^verbatim>\<open>len(x)\<close>; \<open>None\<close> when the value has no length.\<close>

fun py_len :: "json \<Rightarrow> nat option" where
  "py_len (JArr xs) = Some (length xs)"
| "py_len (JStr s) = Some (length s)"
| "py_len (JObj kvs) = Some (length kvs)"
| "py_len _ = None"

text \<open>
  \<^verbatim>\<open>xs[i]\<close> on a list: a negative index counts from the end, an index outside
  \<open>[-len, len)\<close> raises IndexError.
\<close>

definition list_index :: "'a list \<Rightarrow> int \<Rightarrow> 'a option" where
  "list_index xs i =
     (if 0 \<le> i \<and> i < int (length xs) then Some (xs ! nat i)
      else if - int (length xs) \<le> i \<and> i < 0 then Some (xs ! nat (int (length xs) + i))
      else None)"

text \<open>
  \<^verbatim>\<open>x[i]\<close> with an integer \<open>i\<close>: an element of a list, a one-character string of a
  string, KeyError on a dictionary (its keys are strings), TypeError otherwise.
\<close>

fun py_index :: "json \<Rightarrow> int \<Rightarrow> json option" where
  "py_index (JArr xs) i = list_index xs i"
| "py_index (JStr s) i = map_option (\<lambda>c. JStr [c]) (list_index s i)"
| "py_index _ i = None"

text \<open>\<^verbatim>\<open>x[k]\<close> with a string key: only a dictionary holding the key has a value.\<close>

fun py_getitem :: "json \<Rightarrow> string \<Rightarrow> json option" where
  "py_getitem (JObj kvs) k = map_of kvs k"
| "py_getitem _ k = None"

text \<open>\<^verbatim>\<open>for q in x\<close>: the elements of a list, the keys of a dictionary, the characters of a string.\<close>

fun py_iter :: "json \<Rightarrow> json list option" where
  "py_iter (JArr xs) = Some xs"
| "py_iter (JObj kvs) = Some (map (\<lambda>kv. JStr (fst kv)) kvs)"
| "py_iter (JStr s) = Some (map (\<lambda>c. JStr [c]) s)"
| "py_iter _ = None"

section \<open>Strings\<close>

text \<open>\<^verbatim>\<open>str(n)\<close> of an integer: its decimal digits, with a minus sign when negative.\<close>

definition digit_char :: "nat \<Rightarrow> char" where
  "digit_char d = ''0123456789'' ! d"

fun str_nat :: "nat \<Rightarrow> string" where
  "str_nat n = (if n < 10 then [digit_char n] else str_nat (n div 10) @ [digit_char (n mod 10)])"

declare str_nat.simps [simp del]

definition str_int :: "int \<Rightarrow> string" where
  "str_int i = (if i < 0 then CHR ''-'' # str_nat (nat (- i)) else str_nat (nat i))"

text \<open>Reading a decimal numeral back, to show that printing loses nothing.\<close>

definition digit_val :: "char \<Rightarrow> nat" where
  "digit_val c = of_char c - 48"

definition nat_of_digits :: "string \<Rightarrow> nat" where
  "nat_of_digits s = foldl (\<lambda>a c. 10 * a + digit_val c) 0 s"

text \<open>
  \<^verbatim>\<open>s.split()\<close>: the maximal runs of characters that are not whitespace. The
  whitespace of \<^verbatim>\<open>str.split\<close> below code point 256 is 9 to 13, 28 to 32, 133 and 160.
\<close>

definition is_space :: "char \<Rightarrow> bool" where
  "is_space c = (of_char c \<in> set [9, 10, 11, 12, 13, 28, 29, 30, 31, 32, 133, 160 :: nat])"

fun split_from :: "string \<Rightarrow> string \<Rightarrow> string list" where
  "split_from w [] = (if w = [] then [] else [w])"
| "split_from w (c # cs) =
     (if is_space c then (if w = [] then [] else [w]) @ split_from [] cs
      else split_from (w @ [c]) cs)"

definition py_split :: "string \<Rightarrow> string list" where
  "py_split s = split_from [] s"

section \<open>Answer evaluation\<close>

text \<open>
  Lines 293 to 304 of \<^verbatim>\<open>stt_endpoint\<close>: the score and the feedback of one
  transcript. Any exception inside the \<^verbatim>\<open>try\<close> block (the call, the parse,
  \<^verbatim>\<open>.get\<close> on a value that is not a dictionary, \<^verbatim>\<open>int\<close> on a value it
  rejects) leads to the naive scoring of the \<^verbatim>\<open>except\<close> branch.
\<close>

definition fallback_score :: "string \<Rightarrow> int" where
  "fallback_score transcript = min 5 (max 0 (int (length (py_split transcript)) div 20))"

definition fallback_eval :: "string \<Rightarrow> int \<times> json" where
  "fallback_eval transcript = (fallback_score transcript, JStr ''Automated fallback feedback.'')"

definition evaluate :: "'f platform \<Rightarrow> llm_reply \<Rightarrow> string \<Rightarrow> int \<times> json" where
  "evaluate pf reply transcript =
     (case reply of
        Json (JObj kvs) \<Rightarrow>
          (case py_int pf (dict_get kvs ''score'' (JInt 0)) of
             Some n \<Rightarrow> (n, dict_get kvs ''feedback'' (JStr ''''))
           | None \<Rightarrow> fallback_eval transcript)
      | _ \<Rightarrow> fallback_eval transcript)"

section \<open>Question-set generation\<close>

text \<open>
  Lines 201 to 223 of \<^verbatim>\<open>start_interview\<close>. The skills come from the caller's
  resume document; an absent or empty list is replaced by \<^verbatim>\<open>["General"]\<close>, so
  \<^verbatim>\<open>i % len(skills)\<close> never divides by zero. A parsed reply is used as it is.
\<close>

definition skills_or_general :: "string list \<Rightarrow> string list" where
  "skills_or_general rs = (if rs = [] then [''General''] else rs)"

text \<open>
  One item of the fallback loop. \<^verbatim>\<open>i % len(skills)\<close> raises ZeroDivisionError on
  an empty list; the index it gives is always inside the list.
\<close>

definition placeholder :: "string list \<Rightarrow> nat \<Rightarrow> json option" where
  "placeholder skills i =
     (if length skills = 0 then None
      else Some (JObj [(''skill'', JStr (skills ! (i mod length skills))),
                       (''question'', JStr (''Placeholder question #'' @ str_int (int i + 1)
                                             @ '' for '' @ skills ! (i mod length skills))),
                       (''max_score'', JInt 5)]))"

text \<open>
  The question set; \<open>None\<close> when the loop of the \<^verbatim>\<open>except\<close> branch raises, which
  no handler catches.
\<close>

definition generate_questions :: "llm_reply \<Rightarrow> string list \<Rightarrow> json option" where
  "generate_questions reply skills =
     (case reply of
        Json j \<Rightarrow> Some j
      | _ \<Rightarrow> map_option JArr (those (map (placeholder skills) [0..<15])))"

section \<open>Skill extraction\<close>

text \<open>
  \<^verbatim>\<open>extract_skills_from_text\<close> of \<^verbatim>\<open>utils.py\<close>. Case conversion and the word
  characters of the regular expression are modelled on ASCII, which is all the
  vocabulary uses: a word character is a letter, a digit or the underscore.
\<close>

definition KNOWN_SKILLS :: "string list" where
  "KNOWN_SKILLS =
     [''python'', ''java'', ''c++'', ''c#'', ''javascript'', ''node'', ''react'', ''django'',
      ''flask'', ''sql'', ''mysql'', ''postgres'', ''mongodb'', ''aws'', ''docker'',
      ''kubernetes'', ''spring'']"

definition lower_char :: "char \<Rightarrow> char" where
  "lower_char c =
     (case map_of (zip ''ABCDEFGHIJKLMNOPQRSTUVWXYZ'' ''abcdefghijklmnopqrstuvwxyz'') c of
        Some l \<Rightarrow> l
      | None \<Rightarrow> c)"

definition upper_char :: "char \<Rightarrow> char" where
  "upper_char c =
     (case map_of (zip ''abcdefghijklmnopqrstuvwxyz'' ''ABCDEFGHIJKLMNOPQRSTUVWXYZ'') c of
        Some u \<Rightarrow> u
      | None \<Rightarrow> c)"

definition py_lower :: "string \<Rightarrow> string" where
  "py_lower s = map lower_char s"

text \<open>\<^verbatim>\<open>s.capitalize()\<close>: the first character in upper case, the others in lower case.\<close>

definition capitalize :: "string \<Rightarrow> string" where
  "capitalize s = (case s of [] \<Rightarrow> [] | c # cs \<Rightarrow> upper_char c # map lower_char cs)"

definition is_word_char :: "char \<Rightarrow> bool" where
  "is_word_char c =
     (c \<in> set ''abcdefghijklmnopqrstuvwxyzABCDEFGHIJKLMNOPQRSTUVWXYZ0123456789_'')"

text \<open>
  The neighbour of a position is a character or, at either end of the text, nothing.
  \<^verbatim>\<open>\b\<close> holds at a position when exactly one of its two neighbours is a word
  character.
\<close>

definition is_word_opt :: "char option \<Rightarrow> bool" where
  "is_word_opt x = (case x of None \<Rightarrow> False | Some c \<Rightarrow> is_word_char c)"

definition word_boundary :: "char option \<Rightarrow> char option \<Rightarrow> bool" where
  "word_boundary l r = (is_word_opt l \<noteq> is_word_opt r)"

definition head_opt :: "'a list \<Rightarrow> 'a option" where
  "head_opt xs = (case xs of [] \<Rightarrow> None | x # _ \<Rightarrow> Some x)"

fun strip_prefix :: "string \<Rightarrow> string \<Rightarrow> string option" where
  "strip_prefix [] t = Some t"
| "strip_prefix (p # ps) [] = None"
| "strip_prefix (p # ps) (c # cs) = (if p = c then strip_prefix ps cs else None)"

text \<open>
  The pattern \<^verbatim>\<open>\b\<close> + \<^verbatim>\<open>re.escape(s)\<close> + \<^verbatim>\<open>\b\<close> matched at one position of the
  text: \<open>prev\<close> is the character before the position, \<open>t\<close> the text from it.
\<close>

definition match_here :: "string \<Rightarrow> char option \<Rightarrow> string \<Rightarrow> bool" where
  "match_here pat prev t =
     (word_boundary prev (head_opt t) \<and>
      (case strip_prefix pat t of
         None \<Rightarrow> False
       | Some rest \<Rightarrow> word_boundary (if pat = [] then prev else Some (last pat)) (head_opt rest)))"

text \<open>\<^verbatim>\<open>re.search\<close>: a match at some position, the end of the text included.\<close>

fun search_from :: "string \<Rightarrow> char option \<Rightarrow> string \<Rightarrow> bool" where
  "search_from pat prev [] = match_here pat prev []"
| "search_from pat prev (c # cs) = (match_here pat prev (c # cs) \<or> search_from pat (Some c) cs)"

definition re_search_word :: "string \<Rightarrow> string \<Rightarrow> bool" where
  "re_search_word pat text = search_from pat None text"

definition extract_skills_from_text :: "string option \<Rightarrow> string list" where
  "extract_skills_from_text text =
     (let text_low = py_lower (case text of None \<Rightarrow> [] | Some t \<Rightarrow> t);
          found = map capitalize (filter (\<lambda>s. re_search_word s text_low) KNOWN_SKILLS)
      in if found = [] then [''General''] else found)"

text \<open>
  The specification's words, for comparison: a label occurs as a whole word where
  the text holds the label and neither neighbour of the occurrence is a word
  character.
\<close>

definition whole_word_here :: "string \<Rightarrow> char option \<Rightarrow> string \<Rightarrow> bool" where
  "whole_word_here pat prev t =
     (\<not> is_word_opt prev \<and>
      (case strip_prefix pat t of
         None \<Rightarrow> False
       | Some rest \<Rightarrow> \<not> is_word_opt (head_opt rest)))"

fun whole_word_from :: "string \<Rightarrow> char option \<Rightarrow> string \<Rightarrow> bool" where
  "whole_word_from pat prev [] = whole_word_here pat prev []"
| "whole_word_from pat prev (c # cs) =
     (whole_word_here pat prev (c # cs) \<or> whole_word_from pat (Some c) cs)"

definition occurs_whole_word :: "string \<Rightarrow> string \<Rightarrow> bool" where
  "occurs_whole_word pat text = whole_word_from pat None text"

section \<open>Persistent state\<close>

text \<open>
  The tables of \<^verbatim>\<open>models.py\<close> that the interview workflow uses, each a list of
  rows in insertion order, and the resume documents. A nullable column is an
  option. The \<^verbatim>\<open>questions\<close> column keeps the text of \<^verbatim>\<open>json.dumps\<close>, read back
  with \<^verbatim>\<open>json.loads\<close>: the model keeps the value. Times are clock readings passed
  in by the caller; the overall score is a float.
\<close>

record interview =
  i_id :: int
  i_user_id :: int
  i_type :: string
  i_date :: int
  i_questions :: json

record answer =
  a_interview_id :: int
  a_question_text :: "string option"
  a_answer_text :: "string option"
  a_skill :: "string option"
  a_max_score :: "int option"

record score =
  s_interview_id :: int
  s_skill :: "string option"
  s_obtained :: "int option"
  s_total :: "int option"

record 'f report =
  r_interview_id :: int
  r_overall_score :: 'f
  r_pdf_path :: string
  r_generated_at :: int

record resume =
  res_user_id :: int
  res_skills :: "string list"

record 'f db =
  interviews :: "interview list"
  answers :: "answer list"
  scores :: "score list"
  reports :: "'f report list"
  resumes :: "resume list"

text \<open>
  What a request can end with besides its result: the three rejections of the
  handlers (404, 400 "Invalid question index", 400 "Resume not found") and an
  exception that no handler catches.
\<close>

datatype error = NotFound | InvalidIndex | ResumeMissing | ServerError

text \<open>\<^verbatim>\<open>db.query(Interview).filter_by(id=interview_id, user_id=current_user.id).first()\<close>\<close>

definition find_interview :: "'f db \<Rightarrow> int \<Rightarrow> int \<Rightarrow> interview option" where
  "find_interview d iid uid = find (\<lambda>i. i_id i = iid \<and> i_user_id i = uid) (interviews d)"

section \<open>Starting an interview\<close>

text \<open>
  One \<^verbatim>\<open>Answer(...)\<close> of the loops of \<^verbatim>\<open>start_interview\<close> and of the defensive
  path of \<^verbatim>\<open>stt_endpoint\<close>: \<^verbatim>\<open>q["question"]\<close> needs a dictionary with that key.
\<close>

definition new_answer :: "'f platform \<Rightarrow> int \<Rightarrow> string option \<Rightarrow> json \<Rightarrow> answer option" where
  "new_answer pf iid text q =
     (case q of
        JObj kvs \<Rightarrow>
          (case map_of kvs ''question'' of
             None \<Rightarrow> None
           | Some qt \<Rightarrow>
               (case (text_col pf qt, str_col pf (dict_get kvs ''skill'' JNull),
                      answer_int_col pf (dict_get kvs ''max_score'' (JInt 5))) of
                  (Some t, Some s, Some m) \<Rightarrow>
                    Some \<lparr>a_interview_id = iid, a_question_text = t, a_answer_text = text,
                          a_skill = s, a_max_score = m\<rparr>
                | _ \<Rightarrow> None))
      | _ \<Rightarrow> None)"

text \<open>
  The placeholder rows of a question set. They are committed together after the
  loop, so an exception anywhere leaves none of them.
\<close>

definition answer_rows :: "'f platform \<Rightarrow> int \<Rightarrow> json \<Rightarrow> answer list option" where
  "answer_rows pf iid questions_json =
     (case py_iter questions_json of
        None \<Rightarrow> None
      | Some qs \<Rightarrow> those (map (new_answer pf iid None) qs))"

text \<open>
  \<^verbatim>\<open>start_interview\<close>: the interview is committed before the answer rows, with
  the next identifier of the auto-increment key (rows are never deleted).
\<close>

definition start_interview ::
  "'f platform \<Rightarrow> llm_reply \<Rightarrow> int \<Rightarrow> int \<Rightarrow> string \<Rightarrow> 'f db \<Rightarrow> (error + int \<times> nat) \<times> 'f db" where
  "start_interview pf reply now uid interview_type d =
     (case find (\<lambda>r. res_user_id r = uid) (resumes d) of
        None \<Rightarrow> (Inl ResumeMissing, d)
      | Some resume_doc \<Rightarrow>
          (case generate_questions reply (skills_or_general (res_skills resume_doc)) of
             None \<Rightarrow> (Inl ServerError, d)
           | Some questions_json \<Rightarrow>
               (let iid = int (length (interviews d)) + 1;
                    d1 = d\<lparr>interviews := interviews d @
                           [\<lparr>i_id = iid, i_user_id = uid, i_type = interview_type,
                             i_date = now, i_questions = questions_json\<rparr>]\<rparr>
                in case answer_rows pf iid questions_json of
                     None \<Rightarrow> (Inl ServerError, d1)
                   | Some rows \<Rightarrow>
                       (let d2 = d1\<lparr>answers := answers d1 @ rows\<rparr>
                        in case py_len questions_json of
                             None \<Rightarrow> (Inl ServerError, d2)
                           | Some n \<Rightarrow> (Inr (iid, n), d2)))))"

section \<open>Serving a question\<close>

datatype page = ResultRedirect int | QuestionPage int int json nat

text \<open>
  \<^verbatim>\<open>question_page\<close>: the bound check is \<^verbatim>\<open>q_index >= len(questions)\<close> only;
  the question is then read with Python's indexing.
\<close>

definition question_page :: "int \<Rightarrow> int \<Rightarrow> int \<Rightarrow> 'f db \<Rightarrow> error + page" where
  "question_page uid interview_id q_index d =
     (case find_interview d interview_id uid of
        None \<Rightarrow> Inl NotFound
      | Some iv \<Rightarrow>
          (case py_len (i_questions iv) of
             None \<Rightarrow> Inl ServerError
           | Some n \<Rightarrow>
               if q_index \<ge> int n then Inr (ResultRedirect interview_id)
               else (case py_index (i_questions iv) q_index of
                       None \<Rightarrow> Inl ServerError
                     | Some q \<Rightarrow>
                         (case py_getitem q ''question'' of
                            None \<Rightarrow> Inl ServerError
                          | Some question \<Rightarrow>
                              Inr (QuestionPage interview_id q_index question n)))))"

section \<open>Recording and scoring an answer\<close>

text \<open>The first row that satisfies \<open>P\<close> is changed by \<open>f\<close>; the others stay.\<close>

fun update_first :: "('a \<Rightarrow> bool) \<Rightarrow> ('a \<Rightarrow> 'a) \<Rightarrow> 'a list \<Rightarrow> 'a list" where
  "update_first P f [] = []"
| "update_first P f (x # xs) = (if P x then f x # xs else x # update_first P f xs)"

text \<open>
  Lines 277 to 285 of \<^verbatim>\<open>stt_endpoint\<close>: the answer row of the interview with the
  question's text gets the transcript; a row is created when there is none.
\<close>

definition save_answer :: "'f platform \<Rightarrow> int \<Rightarrow> json \<Rightarrow> json \<Rightarrow> string \<Rightarrow> 'f db \<Rightarrow> 'f db option" where
  "save_answer pf interview_id q question_text transcript d =
     (case text_col pf question_text of
        None \<Rightarrow> None
      | Some key \<Rightarrow>
          (case find (\<lambda>a. a_interview_id a = interview_id \<and> a_question_text a = key) (answers d) of
             None \<Rightarrow>
               (case new_answer pf interview_id (Some transcript) q of
                  None \<Rightarrow> None
                | Some row \<Rightarrow> Some (d\<lparr>answers := answers d @ [row]\<rparr>))
           | Some answer_row \<Rightarrow>
               Some (d\<lparr>answers :=
                 update_first (\<lambda>a. a_interview_id a = interview_id \<and> a_question_text a = key)
                   (\<lambda>a. a\<lparr>a_answer_text := Some transcript\<rparr>) (answers d)\<rparr>)))"

text \<open>
  Lines 306 to 310: the score row, appended on every evaluation. The total is what
  the question gives as \<^verbatim>\<open>max_score\<close>, NULL when that is \<^verbatim>\<open>None\<close>.
\<close>

definition save_score :: "'f platform \<Rightarrow> int \<Rightarrow> json \<Rightarrow> int \<Rightarrow> 'f db \<Rightarrow> 'f db option" where
  "save_score pf interview_id q score_obtained d =
     (case q of
        JObj kvs \<Rightarrow>
          (case (str_col pf (dict_get kvs ''skill'' (JStr ''General'')),
                 score_int_col pf (JInt score_obtained),
                 score_int_col pf (dict_get kvs ''max_score'' (JInt 5))) of
             (Some skill, Some obtained, Some possible) \<Rightarrow>
               Some (d\<lparr>scores := scores d @
                 [\<lparr>s_interview_id = interview_id, s_skill = skill,
                   s_obtained = obtained, s_total = possible\<rparr>]\<rparr>)
           | _ \<Rightarrow> None)
      | _ \<Rightarrow> None)"

text \<open>
  Lines 277 to 312 of \<^verbatim>\<open>stt_endpoint\<close>, once the question is known: the
  answer is committed before the evaluation, the score after it.
\<close>

definition record_and_score ::
  "'f platform \<Rightarrow> llm_reply \<Rightarrow> string \<Rightarrow> int \<Rightarrow> json \<Rightarrow> json \<Rightarrow> 'f db
     \<Rightarrow> (error + string \<times> int \<times> json) \<times> 'f db" where
  "record_and_score pf reply transcript interview_id q question_text d =
     (case save_answer pf interview_id q question_text transcript d of
        None \<Rightarrow> (Inl ServerError, d)
      | Some d1 \<Rightarrow>
          (let (score_obtained, feedback) = evaluate pf reply transcript
           in case save_score pf interview_id q score_obtained d1 of
                None \<Rightarrow> (Inl ServerError, d1)
              | Some d2 \<Rightarrow> (Inr (transcript, score_obtained, feedback), d2)))"

text \<open>
  \<^verbatim>\<open>stt_endpoint\<close> after the transcription, whose text is an input here. The
  bound check is \<^verbatim>\<open>q_index >= len(questions)\<close> only; the question is then read
  with Python's indexing.
\<close>

definition stt_endpoint ::
  "'f platform \<Rightarrow> llm_reply \<Rightarrow> string \<Rightarrow> int \<Rightarrow> int \<Rightarrow> int \<Rightarrow> 'f db
     \<Rightarrow> (error + string \<times> int \<times> json) \<times> 'f db" where
  "stt_endpoint pf reply transcript uid interview_id q_index d =
     (case find_interview d interview_id uid of
        None \<Rightarrow> (Inl NotFound, d)
      | Some iv \<Rightarrow>
          (case py_len (i_questions iv) of
             None \<Rightarrow> (Inl ServerError, d)
           | Some n \<Rightarrow>
               if q_index \<ge> int n then (Inl InvalidIndex, d)
               else (case py_index (i_questions iv) q_index of
                       None \<Rightarrow> (Inl ServerError, d)
                     | Some q \<Rightarrow>
                         (case py_getitem q ''question'' of
                            None \<Rightarrow> (Inl ServerError, d)
                          | Some question_text \<Rightarrow>
                              record_and_score pf reply transcript interview_id q
                                question_text d))))"

section \<open>Score aggregation\<close>

text \<open>
  The dictionary \<^verbatim>\<open>skill_map\<close> of \<^verbatim>\<open>immediate_result\<close> as the list of its items
  in insertion order. One pass of the loop creates the entry of a new skill at the
  end with zeros, then adds to the entry.
\<close>

type_synonym skill_map = "(string option \<times> int \<times> int) list"

fun add_to_skill :: "string option \<Rightarrow> int \<Rightarrow> int \<Rightarrow> skill_map \<Rightarrow> skill_map" where
  "add_to_skill k a b [] = [(k, 0 + a, 0 + b)]"
| "add_to_skill k a b ((k', obtained, possible) # m) =
     (if k' = k then (k', obtained + a, possible + b) # m
      else (k', obtained, possible) # add_to_skill k a b m)"

text \<open>
  The loop over the rows. Adding \<^verbatim>\<open>None\<close>, the value of a NULL column, to an
  integer raises TypeError: \<open>None\<close>.
\<close>

fun skill_loop :: "skill_map \<Rightarrow> score list \<Rightarrow> skill_map option" where
  "skill_loop m [] = Some m"
| "skill_loop m (s # rows) =
     (case (s_obtained s, s_total s) of
        (Some a, Some b) \<Rightarrow> skill_loop (add_to_skill (s_skill s) a b m) rows
      | _ \<Rightarrow> None)"

record 'f aggregate_result =
  per_skill :: skill_map
  overall_obtained :: int
  overall_total :: int
  overall_pct :: 'f

text \<open>\<^verbatim>\<open>(obtained / total * 100) if total > 0 else 0.0\<close>, in floating point.\<close>

definition percent :: "'f platform \<Rightarrow> int \<Rightarrow> int \<Rightarrow> 'f" where
  "percent pf obtained possible =
     (if possible > 0 then times_int pf (truediv pf obtained possible) 100 else float_zero pf)"

definition aggregate :: "'f platform \<Rightarrow> score list \<Rightarrow> 'f aggregate_result option" where
  "aggregate pf rows =
     (case skill_loop [] rows of
        None \<Rightarrow> None
      | Some skill_map \<Rightarrow>
          (let obtained = sum_list (map (\<lambda>(k, v). fst v) skill_map);
               possible = sum_list (map (\<lambda>(k, v). snd v) skill_map)
           in Some \<lparr>per_skill = skill_map, overall_obtained = obtained,
                    overall_total = possible, overall_pct = percent pf obtained possible\<rparr>))"

definition immediate_result ::
  "'f platform \<Rightarrow> int \<Rightarrow> int \<Rightarrow> 'f db \<Rightarrow> error + 'f aggregate_result" where
  "immediate_result pf uid interview_id d =
     (case find_interview d interview_id uid of
        None \<Rightarrow> Inl NotFound
      | Some iv \<Rightarrow>
          (case aggregate pf (filter (\<lambda>s. s_interview_id s = interview_id) (scores d)) of
             None \<Rightarrow> Inl ServerError
           | Some result \<Rightarrow> Inr result))"






section \<open>Report generation\<close>

text \<open>
  \<^verbatim>\<open>generate_pdf_report\<close> names the file after the interview and the clock in
  whole seconds, \<open>ts\<close>; drawing the pages is the renderer's business. The handler
  reads the clock again for \<^verbatim>\<open>generated_at\<close>.
\<close>

definition generate_pdf_report :: "int \<Rightarrow> int \<Rightarrow> string" where
  "generate_pdf_report interview_id ts =
     ''reports/'' @ (''report_'' @ str_int interview_id @ ''_'' @ str_int ts @ ''.pdf'')"

definition basename :: "string \<Rightarrow> string" where
  "basename p = rev (takeWhile (\<lambda>c. c \<noteq> CHR ''/'') (rev p))"

text \<open>\<^verbatim>\<open>sum(...)\<close> over a column: TypeError when a value is \<^verbatim>\<open>None\<close>.\<close>

definition py_sum :: "int option list \<Rightarrow> int option" where
  "py_sum xs = map_option sum_list (those xs)"

definition generate_report_api ::
  "'f platform \<Rightarrow> int \<Rightarrow> int \<Rightarrow> int \<Rightarrow> int \<Rightarrow> 'f db \<Rightarrow> (error + string \<times> string) \<times> 'f db" where
  "generate_report_api pf ts now uid interview_id d =
     (case find_interview d interview_id uid of
        None \<Rightarrow> (Inl NotFound, d)
      | Some iv \<Rightarrow>
          (let rows = filter (\<lambda>s. s_interview_id s = interview_id) (scores d)
           in case (py_sum (map s_obtained rows), py_sum (map s_total rows)) of
                (Some total_obtained, Some total_possible) \<Rightarrow>
                  (let overall_pct = percent pf total_obtained total_possible;
                       pdf_path = generate_pdf_report interview_id ts;
                       rep = \<lparr>r_interview_id = interview_id, r_overall_score = overall_pct,
                              r_pdf_path = pdf_path, r_generated_at = now\<rparr>
                   in (Inr (''/reports/'' @ basename pdf_path, pdf_path),
                       d\<lparr>reports := reports d @ [rep]\<rparr>))
              | _ \<Rightarrow> (Inl ServerError, d)))"

section \<open>Answer rows of a question\<close>

text \<open>
  An answer row is found by its interview and its question text. The rows are one
  per question text when no two of them agree on both.
\<close>

definition answer_key :: "answer \<Rightarrow> int \<times> string option" where
  "answer_key a = (a_interview_id a, a_question_text a)"

definition one_answer_per_question :: "'f db \<Rightarrow> bool" where
  "one_answer_per_question d = distinct (map answer_key (answers d))"

text \<open>The question texts of the answer rows of interview \<open>j\<close>, in the order of the rows.\<close>

definition answer_texts :: "int \<Rightarrow> 'f db \<Rightarrow> string option list" where
  "answer_texts j d = map snd (filter (\<lambda>k. fst k = j) (map answer_key (answers d)))"

text \<open>Whether the answer rows that a question set gives have pairwise distinct texts.\<close>

definition distinct_questions :: "'f platform \<Rightarrow> json \<Rightarrow> bool" where
  "distinct_questions pf questions_json =
     (case answer_rows pf 0 questions_json of
        None \<Rightarrow> True
      | Some rows \<Rightarrow> distinct (map a_question_text rows))"

text \<open>
  The databases that a sequence of interview starts and answer submissions leads
  to, from a database that holds resumes only.
\<close>

inductive reachable :: "'f platform \<Rightarrow> 'f db \<Rightarrow> bool" for pf :: "'f platform" where
  reach_initial: "reachable pf \<lparr>interviews = [], answers = [], scores = [], reports = [], resumes = rs\<rparr>"
| reach_start: "reachable pf d
    \<Longrightarrow> reachable pf (snd (start_interview pf reply now uid interview_type d))"
| reach_record: "reachable pf d \<Longrightarrow> reachable pf (snd (stt_endpoint pf reply tr uid iid idx d))"

text \<open>No row refers to an interview number that has not been given out yet.\<close>

definition ids_in_range :: "'f db \<Rightarrow> bool" where
  "ids_in_range d =
     (list_all (\<lambda>k. fst k \<le> int (length (interviews d))) (map answer_key (answers d))
      \<and> list_all (\<lambda>i. i_id i \<le> int (length (interviews d))) (interviews d))"

text \<open>
  The answer rows of every interview whose question set has distinct texts have
  distinct texts.
\<close>

definition distinct_where_asked :: "'f platform \<Rightarrow> 'f db \<Rightarrow> bool" where
  "distinct_where_asked pf d =
     list_all (\<lambda>iv. distinct_questions pf (i_questions iv) \<longrightarrow> distinct (answer_texts (i_id iv) d))
       (interviews d)"

section \<open>What belongs to a caller\<close>

text \<open>
  The rows of one interview, and the database with everything removed that does
  not belong to the caller \<open>uid\<close>: the interviews of other users and the rows of
  interviews that are not the caller's.
\<close>

definition interview_rows :: "int \<Rightarrow> 'f db \<Rightarrow> answer list \<times> score list \<times> 'f report list" where
  "interview_rows j d =
     (filter (\<lambda>a. a_interview_id a = j) (answers d),
      filter (\<lambda>s. s_interview_id s = j) (scores d),
      filter (\<lambda>r. r_interview_id r = j) (reports d))"

definition own_part :: "int \<Rightarrow> 'f db \<Rightarrow> 'f db" where
  "own_part uid d =
     \<lparr>interviews = filter (\<lambda>i. i_user_id i = uid) (interviews d),
      answers = filter (\<lambda>a. find_interview d (a_interview_id a) uid \<noteq> None) (answers d),
      scores = filter (\<lambda>s. find_interview d (s_interview_id s) uid \<noteq> None) (scores d),
      reports = filter (\<lambda>r. find_interview d (r_interview_id r) uid \<noteq> None) (reports d),
      resumes = filter (\<lambda>r. res_user_id r = uid) (resumes d)\<rparr>"

section \<open>Sample data\<close>

text \<open>
  A platform to run the operations on. Python's \<^verbatim>\<open>int\<close> is given for ASCII
  strings: whitespace (9 to 13 and 32) around the numeral is dropped, a sign may
  come first, and the digits may be grouped by single underscores.
\<close>

definition is_digit :: "char \<Rightarrow> bool" where
  "is_digit c = (c \<in> set ''0123456789'')"

definition is_ascii_space :: "char \<Rightarrow> bool" where
  "is_ascii_space c = (of_char c \<in> set [9, 10, 11, 12, 13, 32 :: nat])"

fun digits_ok :: "bool \<Rightarrow> string \<Rightarrow> bool" where
  "digits_ok after_digit [] = after_digit"
| "digits_ok after_digit (c # cs) =
     (if is_digit c then digits_ok True cs
      else if c = CHR ''_'' \<and> after_digit then digits_ok False cs
      else False)"

definition py_int_of_str :: "string \<Rightarrow> int option" where
  "py_int_of_str s =
     (let t = rev (dropWhile is_ascii_space (rev (dropWhile is_ascii_space s)));
          negative = (t \<noteq> [] \<and> hd t = CHR ''-'');
          body = (if t \<noteq> [] \<and> (hd t = CHR ''-'' \<or> hd t = CHR ''+'') then tl t else t)
      in if digits_ok False body
         then Some ((if negative then - 1 else 1)
                    * int (nat_of_digits (filter (\<lambda>c. c \<noteq> CHR ''_'') body)))
         else None)"

text \<open>
  The driver stores a string as a string and an integer of 32 bits as an integer,
  keeps \<^verbatim>\<open>None\<close> as NULL and raises on anything else.
\<close>

definition plain_text :: "json \<Rightarrow> string option option" where
  "plain_text v = (case v of JStr s \<Rightarrow> Some (Some s) | JNull \<Rightarrow> Some None | _ \<Rightarrow> None)"

definition plain_int :: "json \<Rightarrow> int option option" where
  "plain_int v =
     (case v of
        JInt n \<Rightarrow> if - 2147483648 \<le> n \<and> n \<le> 2147483647 then Some (Some n) else None
      | JNull \<Rightarrow> Some None
      | _ \<Rightarrow> None)"

text \<open>
  The floats of the samples are not computed: a sample keeps the operations that
  the program applies, so that nothing is said about rounding.
\<close>

datatype float_term = FloatZero | TrueDiv int int | TimesInt float_term int

definition plain :: "float_term platform" where
  "plain = \<lparr>int_of_str = py_int_of_str, text_col = plain_text, str_col = plain_text,
            answer_int_col = plain_int, score_int_col = plain_int,
            truediv = TrueDiv, times_int = TimesInt, float_zero = FloatZero\<rparr>"

text \<open>A database with one resume, of user 1, and nothing else.\<close>

definition db0 :: "float_term db" where
  "db0 = \<lparr>interviews = [], answers = [], scores = [], reports = [],
          resumes = [\<lparr>res_user_id = 1, res_skills = [''Python'']\<rparr>]\<rparr>"

text \<open>
  A completed interview: the model gave one question, user 1 answered it and the
  model scored the answer 4.
\<close>

definition one_question :: json where
  "one_question = JArr [JObj [(''skill'', JStr ''Sql''), (''question'', JStr ''What is a join?''),
                              (''max_score'', JInt 5)]]"

definition db_done :: "float_term db" where
  "db_done =
     snd (stt_endpoint plain (Json (JObj [(''score'', JInt 4), (''feedback'', JStr ''Good'')]))
            ''It combines rows of two tables'' 1 1 0
            (snd (start_interview plain (Json one_question) 100 1 ''technical'' db0)))"

text \<open>
  The same, but the model gave the question with \<^verbatim>\<open>"max_score": null\<close>, and the
  answer was scored by the fallback.
\<close>

definition null_question :: json where
  "null_question = JArr [JObj [(''skill'', JStr ''Sql''), (''question'', JStr ''What is a join?''),
                               (''max_score'', JNull)]]"

definition db_null :: "float_term db" where
  "db_null =
     snd (stt_endpoint plain CallFailed ''It combines rows of two tables'' 1 1 0
            (snd (start_interview plain (Json null_question) 100 1 ''technical'' db0)))"

text \<open>The database after user 1 has started an interview while the model was down.\<close>

definition db1 :: "float_term db" where
  "db1 = snd (start_interview plain CallFailed 100 1 ''technical'' db0)"

text \<open>Its question set.\<close>

definition python_placeholders :: "json list" where
  "python_placeholders =
     map (\<lambda>i. JObj [(''skill'', JStr ''Python''),
                     (''question'', JStr (''Placeholder question #'' @ str_int (int i + 1)
                                           @ '' for Python'')),
                     (''max_score'', JInt 5)]) [0..<15]"

text \<open>An interview for which the model gave the same question text twice.\<close>

definition repeated_question :: json where
  "repeated_question =
     JArr [JObj [(''skill'', JStr ''Sql''), (''question'', JStr ''What is a join?''),
                 (''max_score'', JInt 5)],
           JObj [(''skill'', JStr ''Mysql''), (''question'', JStr ''What is a join?''),
                 (''max_score'', JInt 5)]]"

definition db_dup :: "float_term db" where
  "db_dup = snd (start_interview plain (Json repeated_question) 100 1 ''technical'' db0)"

section \<open>Properties of the evaluator\<close>

lemma split_from_words:
  "split_from [] (concat (replicate n ''word '')) = replicate n ''word''"
  by (induction n) (simp_all add: is_space_def)

lemma word_count_words:
  "length (py_split (concat (replicate n ''word ''))) = n"
  by (simp add: py_split_def split_from_words)

text \<open>
  C4. When the evaluation call raises or its reply is not JSON, the score is
  \<open>min 5 (max 0 (words div 20))\<close> for the number of whitespace-separated words of
  the transcript and the feedback is the fixed fallback text; an empty transcript
  scores 0, forty words score 2 and two hundred words score 5.
\<close>

theorem evaluate_fallback:
  "evaluate pf CallFailed t =
     (min 5 (max 0 (int (length (py_split t)) div 20)), JStr ''Automated fallback feedback.'')
   \<and> evaluate pf NotJson t =
     (min 5 (max 0 (int (length (py_split t)) div 20)), JStr ''Automated fallback feedback.'')
   \<and> fst (evaluate pf CallFailed '''') = 0
   \<and> fst (evaluate pf NotJson '''') = 0
   \<and> fst (evaluate pf CallFailed (concat (replicate 40 ''word ''))) = 2
   \<and> fst (evaluate pf NotJson (concat (replicate 40 ''word ''))) = 2
   \<and> fst (evaluate pf CallFailed (concat (replicate 200 ''word ''))) = 5
   \<and> fst (evaluate pf NotJson (concat (replicate 200 ''word ''))) = 5"
  by (simp add: evaluate_def fallback_eval_def fallback_score_def word_count_words)
    (simp add: py_split_def)

lemma fallback_score_bounds: "0 \<le> fallback_score t \<and> fallback_score t \<le> 5"
  by (simp add: fallback_score_def)

text \<open>
  C1. The score of an evaluation is an integer between 0 and the question's
  maximum of 5, on the path of a parsed reply as on the fallback path. The naive
  scoring keeps to the range (\<open>fallback_score_bounds\<close>), but the score of a parsed
  reply is returned as \<^verbatim>\<open>int\<close> gives it: a reply with score 10 scores 10, one
  with score -3 scores below 0.
\<close>

theorem evaluate_unclamped:
  "evaluate pf (Json (JObj [(''score'', JInt 10), (''feedback'', JStr ''Excellent'')])) t
     = (10, JStr ''Excellent'')
   \<and> \<not> fst (evaluate pf (Json (JObj [(''score'', JInt 10), (''feedback'', JStr ''Excellent'')])) t) \<le> 5
   \<and> fst (evaluate pf (Json (JObj [(''score'', JInt (- 3))])) t) < 0"
  by (simp add: evaluate_def dict_get_def)

section \<open>Properties of the question-set generator\<close>

lemma skills_or_general_nonempty: "skills_or_general rs \<noteq> []"
  by (simp add: skills_or_general_def)

lemma fallback_raises_without_skills:
  "generate_questions CallFailed [] = None \<and> generate_questions NotJson [] = None"
  by (simp add: generate_questions_def placeholder_def upt_rec)

lemma those_map_Some:
  "(\<And>x. x \<in> set xs \<Longrightarrow> f x = Some (g x)) \<Longrightarrow> those (map f xs) = Some (map g xs)"
  by (induction xs) simp_all

text \<open>
  C2. When the generation call raises or its reply is not JSON, the question set
  has exactly 15 items; item \<open>i\<close> (counted from 0) has the skill
  \<open>skills ! (i mod length skills)\<close>, the text "Placeholder question #" followed by
  \<open>i + 1\<close>, " for " and that skill, and the maximal score 5. The fallback does not
  fail: the list of skills it cycles through is never empty, so the loop does not
  divide by zero, and the result is this question set for every list of resume
  skills.
\<close>

theorem generate_questions_fallback:
  assumes "reply = CallFailed \<or> reply = NotJson"
  shows "skills_or_general rs \<noteq> []
     \<and> (\<exists>qs. generate_questions reply (skills_or_general rs) = Some (JArr qs) \<and> length qs = 15
          \<and> (\<forall>i<15. qs ! i =
               JObj [(''skill'', JStr (skills_or_general rs ! (i mod length (skills_or_general rs)))),
                     (''question'', JStr (''Placeholder question #'' @ str_int (int i + 1) @ '' for ''
                          @ skills_or_general rs ! (i mod length (skills_or_general rs)))),
                     (''max_score'', JInt 5)]))"
proof -
  let ?sk = "skills_or_general rs"
  let ?item = "\<lambda>i::nat. JObj [(''skill'', JStr (?sk ! (i mod length ?sk))),
                (''question'', JStr (''Placeholder question #'' @ str_int (int i + 1) @ '' for ''
                     @ ?sk ! (i mod length ?sk))),
                (''max_score'', JInt 5)]"
  let ?qs = "map ?item [0..<15]"
  have ne: "?sk \<noteq> []" by (rule skills_or_general_nonempty)
  then have item: "placeholder ?sk i = Some (?item i)" for i
    by (simp add: placeholder_def)
  have "those (map (placeholder ?sk) [0..<15]) = Some ?qs"
    by (rule those_map_Some) (rule item)
  with assms have gen: "generate_questions reply ?sk = Some (JArr ?qs)"
    by (auto simp: generate_questions_def)
  have len: "length ?qs = 15" by simp
  have nth: "\<forall>i<15. ?qs ! i = ?item i"
    by (simp del: upt_Suc)
  from ne gen len nth show ?thesis by blast
qed

theorem generate_questions_fallback_witness:
  "skills_or_general [''Python'', ''Java''] \<noteq> []
   \<and> (\<exists>qs. generate_questions CallFailed (skills_or_general [''Python'', ''Java'']) = Some (JArr qs)
     \<and> length qs = 15
     \<and> qs ! 3 = JObj [(''skill'', JStr ''Java''),
                      (''question'', JStr ''Placeholder question #4 for Java''),
                      (''max_score'', JInt 5)]
     \<and> qs ! 14 = JObj [(''skill'', JStr ''Python''),
                      (''question'', JStr ''Placeholder question #15 for Python''),
                      (''max_score'', JInt 5)])"
proof -
  let ?sk = "skills_or_general [''Python'', ''Java'']"
  let ?item = "\<lambda>i::nat. JObj [(''skill'', JStr (?sk ! (i mod length ?sk))),
                (''question'', JStr (''Placeholder question #'' @ str_int (int i + 1) @ '' for ''
                     @ ?sk ! (i mod length ?sk))),
                (''max_score'', JInt 5)]"
  have reply: "CallFailed = CallFailed \<or> CallFailed = NotJson" by simp
  from generate_questions_fallback [OF reply, of "[''Python'', ''Java'']"]
  obtain qs where ne: "?sk \<noteq> []"
    and qs: "generate_questions CallFailed ?sk = Some (JArr qs)" "length qs = 15"
      "\<forall>i<15. qs ! i = ?item i"
    by blast
  have e3: "?item 3 = JObj [(''skill'', JStr ''Java''),
                      (''question'', JStr ''Placeholder question #4 for Java''),
                      (''max_score'', JInt 5)]"
    by code_simp
  have e14: "?item 14 = JObj [(''skill'', JStr ''Python''),
                      (''question'', JStr ''Placeholder question #15 for Python''),
                      (''max_score'', JInt 5)]"
    by code_simp
  have "qs ! 3 = ?item 3" and "qs ! 14 = ?item 14"
    using qs(3) by simp_all
  with e3 e14 ne qs(1,2) show ?thesis by metis
qed

section \<open>Properties of the skill extraction\<close>

lemma extract_nonempty: "extract_skills_from_text text \<noteq> []"
  by (simp add: extract_skills_from_text_def Let_def)

lemma extract_general:
  "(\<forall>s \<in> set KNOWN_SKILLS.
      \<not> re_search_word s (py_lower (case text of None \<Rightarrow> [] | Some t \<Rightarrow> t)))
   \<Longrightarrow> extract_skills_from_text text = [''General'']"
  by (simp add: extract_skills_from_text_def Let_def filter_empty_conv)

lemma strip_prefix_head:
  "strip_prefix pat t = Some rest \<Longrightarrow> pat \<noteq> [] \<Longrightarrow> head_opt t = Some (hd pat)"
  by (cases pat; cases t) (auto simp: head_opt_def split: if_splits)

lemma match_here_whole_word:
  assumes "pat \<noteq> []" and "is_word_char (hd pat)" and "is_word_char (last pat)"
  shows "match_here pat prev t = whole_word_here pat prev t"
proof (cases "strip_prefix pat t")
  case None
  then show ?thesis by (simp add: match_here_def whole_word_here_def)
next
  case (Some rest)
  from strip_prefix_head [OF Some assms(1)] assms Some show ?thesis
    by (simp add: match_here_def whole_word_here_def word_boundary_def is_word_opt_def)
qed

lemma search_whole_word:
  assumes "pat \<noteq> []" and "is_word_char (hd pat)" and "is_word_char (last pat)"
  shows "search_from pat prev t = whole_word_from pat prev t"
  using assms by (induction t arbitrary: prev) (simp_all add: match_here_whole_word)

lemma re_search_word_whole_word:
  assumes "pat \<noteq> []" and "is_word_char (hd pat)" and "is_word_char (last pat)"
  shows "re_search_word pat text = occurs_whole_word pat text"
  using assms by (simp add: re_search_word_def occurs_whole_word_def search_whole_word)

lemma word_skills:
  "list_all (\<lambda>s. s \<noteq> [] \<and> is_word_char (hd s) \<and> is_word_char (last s))
     (filter (\<lambda>s. s \<noteq> ''c++'' \<and> s \<noteq> ''c#'') KNOWN_SKILLS)"
  by code_simp

lemma word_skills_found:
  assumes "s \<in> set KNOWN_SKILLS" and "s \<noteq> ''c++''" and "s \<noteq> ''c#''"
  shows "re_search_word s text = occurs_whole_word s text"
proof -
  from assms have "s \<in> set (filter (\<lambda>s. s \<noteq> ''c++'' \<and> s \<noteq> ''c#'') KNOWN_SKILLS)"
    by simp
  with word_skills have "s \<noteq> [] \<and> is_word_char (hd s) \<and> is_word_char (last s)"
    unfolding list_all_iff by blast
  then show ?thesis by (simp add: re_search_word_whole_word)
qed

text \<open>
  C5. Skill extraction collects every label of the vocabulary that occurs in the
  text as a whole word, whatever the case; the result is never empty
  (\<open>extract_nonempty\<close>) and is the default list when the search finds no label
  (\<open>extract_general\<close>). For the labels made of word characters the search is the
  whole-word search (\<open>word_skills_found\<close>). The labels "c++" and "c#" end in a
  character that is not a word character, so \<^verbatim>\<open>\b\<close> after them asks for a word
  character next: in "I know C++ and C#" both labels stand as whole words and
  neither is found, and the result is the default list.
\<close>

theorem extract_misses_symbol_skills:
  "extract_skills_from_text (Some ''I know C++ and C#'') = [''General'']
   \<and> occurs_whole_word ''c++'' (py_lower ''I know C++ and C#'')
   \<and> occurs_whole_word ''c#'' (py_lower ''I know C++ and C#'')
   \<and> ''c++'' \<in> set KNOWN_SKILLS \<and> ''c#'' \<in> set KNOWN_SKILLS"
  by code_simp

section \<open>Properties of the aggregation\<close>









lemma skill_loop_raises:
  "(skill_loop m rows = None) = (\<exists>s\<in>set rows. s_obtained s = None \<or> s_total s = None)"
  by (induction rows arbitrary: m) (auto split: option.splits)






section \<open>Ownership of interviews\<close>

lemma find_interview_None_iff:
  "find_interview d iid uid = None \<longleftrightarrow>
     (\<forall>i\<in>set (interviews d). i_id i = iid \<longrightarrow> i_user_id i \<noteq> uid)"
  by (auto simp: find_interview_def find_None_iff)

lemma find_filter:
  "(\<And>x. P x \<Longrightarrow> Q x) \<Longrightarrow> find P (filter Q xs) = find P xs"
  by (induction xs) auto

lemma filter_filter_implied:
  "(\<And>x. P x \<Longrightarrow> Q x) \<Longrightarrow> filter P (filter Q xs) = filter P xs"
  by (induction xs) auto

lemma filter_update_first_other:
  "j \<noteq> iid \<Longrightarrow>
     filter (\<lambda>a. a_interview_id a = j)
       (update_first (\<lambda>a. a_interview_id a = iid \<and> Q a) (\<lambda>a. a\<lparr>a_answer_text := t\<rparr>) xs)
     = filter (\<lambda>a. a_interview_id a = j) xs"
  by (induction xs) auto

lemma not_owned_rejected:
  assumes "\<forall>i\<in>set (interviews d). i_id i = iid \<longrightarrow> i_user_id i \<noteq> uid"
  shows "question_page uid iid idx d = Inl NotFound"
    and "stt_endpoint pf reply tr uid iid idx d = (Inl NotFound, d)"
    and "immediate_result pf uid iid d = Inl NotFound"
    and "generate_report_api pf ts now uid iid d = (Inl NotFound, d)"
proof -
  from assms have "find_interview d iid uid = None"
    by (simp add: find_interview_None_iff)
  then show "question_page uid iid idx d = Inl NotFound"
    and "stt_endpoint pf reply tr uid iid idx d = (Inl NotFound, d)"
    and "immediate_result pf uid iid d = Inl NotFound"
    and "generate_report_api pf ts now uid iid d = (Inl NotFound, d)"
    by (simp_all add: question_page_def stt_endpoint_def immediate_result_def
        generate_report_api_def)
qed

lemma save_answer_frame:
  assumes "save_answer pf iid q qt tr d = Some d1"
  shows "interviews d1 = interviews d \<and> scores d1 = scores d \<and> reports d1 = reports d
    \<and> resumes d1 = resumes d
    \<and> (j \<noteq> iid \<longrightarrow> filter (\<lambda>a. a_interview_id a = j) (answers d1)
                     = filter (\<lambda>a. a_interview_id a = j) (answers d))"
proof -
  have new: "new_answer pf iid t q = Some row \<Longrightarrow> a_interview_id row = iid" for t row
    by (auto simp: new_answer_def split: json.splits option.splits prod.splits)
  show ?thesis
    using assms
    by (auto simp: save_answer_def filter_update_first_other dest: new
        split: option.splits)
qed

lemma save_score_frame:
  assumes "save_score pf iid q n d = Some d1"
  shows "interviews d1 = interviews d \<and> answers d1 = answers d \<and> reports d1 = reports d
    \<and> resumes d1 = resumes d
    \<and> (j \<noteq> iid \<longrightarrow> filter (\<lambda>s. s_interview_id s = j) (scores d1)
                     = filter (\<lambda>s. s_interview_id s = j) (scores d))"
  using assms
  by (auto simp: save_score_def split: json.splits option.splits prod.splits)

lemma stt_endpoint_frame:
  assumes "stt_endpoint pf reply tr uid iid idx d = (r, d')"
  shows "interviews d' = interviews d \<and> resumes d' = resumes d
    \<and> (j \<noteq> iid \<longrightarrow> interview_rows j d' = interview_rows j d)"
proof -
  have "d' = d \<or> (\<exists>q qt d1. save_answer pf iid q qt tr d = Some d1 \<and>
          (d' = d1 \<or> (\<exists>n. save_score pf iid q n d1 = Some d')))"
    using assms
    by (auto simp: stt_endpoint_def record_and_score_def Let_def
        split: option.splits if_splits prod.splits)
  then show ?thesis
  proof
    assume "d' = d"
    then show ?thesis by simp
  next
    assume "\<exists>q qt d1. save_answer pf iid q qt tr d = Some d1 \<and>
          (d' = d1 \<or> (\<exists>n. save_score pf iid q n d1 = Some d'))"
    then obtain q qt d1 where a: "save_answer pf iid q qt tr d = Some d1"
      and b: "d' = d1 \<or> (\<exists>n. save_score pf iid q n d1 = Some d')"
      by blast
    from b show ?thesis
    proof
      assume "d' = d1"
      with save_answer_frame [OF a, of j] show ?thesis
        by (simp add: interview_rows_def)
    next
      assume "\<exists>n. save_score pf iid q n d1 = Some d'"
      then obtain n where c: "save_score pf iid q n d1 = Some d'" by blast
      from save_answer_frame [OF a, of j] save_score_frame [OF c, of j] show ?thesis
        by (simp add: interview_rows_def)
    qed
  qed
qed

lemma generate_report_frame:
  assumes "generate_report_api pf ts now uid iid d = (r, d')"
  shows "interviews d' = interviews d \<and> resumes d' = resumes d
    \<and> (j \<noteq> iid \<longrightarrow> interview_rows j d' = interview_rows j d)"
  using assms
  by (auto simp: generate_report_api_def Let_def interview_rows_def
      split: option.splits prod.splits)

lemma find_interview_own_part:
  "find_interview (own_part uid d) iid uid = find_interview d iid uid"
  by (auto simp: find_interview_def own_part_def intro!: find_filter)

lemma rows_own_part:
  assumes "find_interview d iid uid \<noteq> None"
  shows "find (\<lambda>a. a_interview_id a = iid \<and> Q a) (answers (own_part uid d))
           = find (\<lambda>a. a_interview_id a = iid \<and> Q a) (answers d)"
    and "filter (\<lambda>s. s_interview_id s = iid) (scores (own_part uid d))
           = filter (\<lambda>s. s_interview_id s = iid) (scores d)"
proof -
  show "find (\<lambda>a. a_interview_id a = iid \<and> Q a) (answers (own_part uid d))
           = find (\<lambda>a. a_interview_id a = iid \<and> Q a) (answers d)"
    unfolding own_part_def using assms by (auto intro!: find_filter)
  show "filter (\<lambda>s. s_interview_id s = iid) (scores (own_part uid d))
           = filter (\<lambda>s. s_interview_id s = iid) (scores d)"
    unfolding own_part_def using assms by (auto intro!: filter_cong)
qed

lemma save_answer_own_part:
  assumes "find_interview d iid uid \<noteq> None"
  shows "(save_answer pf iid q qt tr (own_part uid d) = None) = (save_answer pf iid q qt tr d = None)"
  using rows_own_part(1) [OF assms]
  by (auto simp: save_answer_def split: option.splits)

lemma save_score_total:
  "(save_score pf iid q n d = None) = (save_score pf iid q n d' = None)"
  by (auto simp: save_score_def split: json.splits option.splits prod.splits)

lemma record_and_score_own_part:
  assumes "find_interview d iid uid \<noteq> None"
  shows "fst (record_and_score pf reply tr iid q qt (own_part uid d))
     = fst (record_and_score pf reply tr iid q qt d)"
proof (cases "save_answer pf iid q qt tr d")
  case None
  then have "save_answer pf iid q qt tr (own_part uid d) = None"
    using save_answer_own_part [OF assms] by simp
  with None show ?thesis by (simp add: record_and_score_def)
next
  case (Some d1)
  then obtain d1' where own: "save_answer pf iid q qt tr (own_part uid d) = Some d1'"
    using save_answer_own_part [OF assms, of pf q qt tr] by (cases "save_answer pf iid q qt tr (own_part uid d)") auto
  obtain s f where ev: "evaluate pf reply tr = (s, f)"
    by (cases "evaluate pf reply tr") auto
  show ?thesis
  proof (cases "save_score pf iid q s d1")
    case None
    then have "save_score pf iid q s d1' = None"
      using save_score_total [of pf iid q s d1 d1'] by simp
    with None Some own ev show ?thesis by (simp add: record_and_score_def)
  next
    case (Some d2)
    then obtain d2' where "save_score pf iid q s d1' = Some d2'"
      using save_score_total [of pf iid q s d1 d1'] by (cases "save_score pf iid q s d1'") auto
    with Some \<open>save_answer pf iid q qt tr d = Some d1\<close> own ev show ?thesis
      by (simp add: record_and_score_def)
  qed
qed

lemma stt_endpoint_own_part:
  "fst (stt_endpoint pf reply tr uid iid idx (own_part uid d))
     = fst (stt_endpoint pf reply tr uid iid idx d)"
proof (cases "find_interview d iid uid")
  case None
  then show ?thesis
    by (simp add: stt_endpoint_def find_interview_own_part)
next
  case (Some iv)
  then have owned: "find_interview d iid uid \<noteq> None" by simp
  show ?thesis
    using Some
    by (simp add: stt_endpoint_def find_interview_own_part record_and_score_own_part [OF owned]
        split: option.splits)
qed

lemma reads_own_part:
  "question_page uid iid idx (own_part uid d) = question_page uid iid idx d"
  "immediate_result pf uid iid (own_part uid d) = immediate_result pf uid iid d"
  "fst (generate_report_api pf ts now uid iid (own_part uid d))
     = fst (generate_report_api pf ts now uid iid d)"
proof -
  show "question_page uid iid idx (own_part uid d) = question_page uid iid idx d"
    by (simp add: question_page_def find_interview_own_part)
  show "immediate_result pf uid iid (own_part uid d) = immediate_result pf uid iid d"
    using rows_own_part(2) [of d iid uid]
    by (auto simp: immediate_result_def find_interview_own_part split: option.splits)
  show "fst (generate_report_api pf ts now uid iid (own_part uid d))
     = fst (generate_report_api pf ts now uid iid d)"
    using rows_own_part(2) [of d iid uid]
    by (auto simp: generate_report_api_def find_interview_own_part Let_def
        split: option.splits prod.splits)
qed

text \<open>
  C6. An operation on an interview (question page, answer submission, result view,
  report generation) is rejected with NotFound, and changes nothing, when no
  interview with the given id belongs to the caller: the id is unknown or the
  interview is another user's. No operation changes the interviews or the rows of
  an interview that is not the caller's, and the response of every operation is the
  same when everything that is not the caller's is removed from the database.
\<close>

theorem ownership_isolation:
  "((\<forall>i\<in>set (interviews d). i_id i = iid \<longrightarrow> i_user_id i \<noteq> uid) \<longrightarrow>
        question_page uid iid idx d = Inl NotFound
      \<and> stt_endpoint pf reply tr uid iid idx d = (Inl NotFound, d)
      \<and> immediate_result pf uid iid d = Inl NotFound
      \<and> generate_report_api pf ts now uid iid d = (Inl NotFound, d))
   \<and> ((\<forall>i\<in>set (interviews d). i_id i = j \<longrightarrow> i_user_id i \<noteq> uid) \<longrightarrow>
        interviews (snd (stt_endpoint pf reply tr uid iid idx d)) = interviews d
      \<and> interview_rows j (snd (stt_endpoint pf reply tr uid iid idx d)) = interview_rows j d
      \<and> interviews (snd (generate_report_api pf ts now uid iid d)) = interviews d
      \<and> interview_rows j (snd (generate_report_api pf ts now uid iid d)) = interview_rows j d)
   \<and> question_page uid iid idx (own_part uid d) = question_page uid iid idx d
   \<and> fst (stt_endpoint pf reply tr uid iid idx (own_part uid d))
        = fst (stt_endpoint pf reply tr uid iid idx d)
   \<and> immediate_result pf uid iid (own_part uid d) = immediate_result pf uid iid d
   \<and> fst (generate_report_api pf ts now uid iid (own_part uid d))
        = fst (generate_report_api pf ts now uid iid d)"
proof -
  have rejected: "(\<forall>i\<in>set (interviews d). i_id i = iid \<longrightarrow> i_user_id i \<noteq> uid) \<longrightarrow>
        question_page uid iid idx d = Inl NotFound
      \<and> stt_endpoint pf reply tr uid iid idx d = (Inl NotFound, d)
      \<and> immediate_result pf uid iid d = Inl NotFound
      \<and> generate_report_api pf ts now uid iid d = (Inl NotFound, d)"
    using not_owned_rejected [of d iid uid] by blast
  have untouched: "(\<forall>i\<in>set (interviews d). i_id i = j \<longrightarrow> i_user_id i \<noteq> uid) \<longrightarrow>
        interviews (snd (stt_endpoint pf reply tr uid iid idx d)) = interviews d
      \<and> interview_rows j (snd (stt_endpoint pf reply tr uid iid idx d)) = interview_rows j d
      \<and> interviews (snd (generate_report_api pf ts now uid iid d)) = interviews d
      \<and> interview_rows j (snd (generate_report_api pf ts now uid iid d)) = interview_rows j d"
  proof
    assume other: "\<forall>i\<in>set (interviews d). i_id i = j \<longrightarrow> i_user_id i \<noteq> uid"
    show "interviews (snd (stt_endpoint pf reply tr uid iid idx d)) = interviews d
      \<and> interview_rows j (snd (stt_endpoint pf reply tr uid iid idx d)) = interview_rows j d
      \<and> interviews (snd (generate_report_api pf ts now uid iid d)) = interviews d
      \<and> interview_rows j (snd (generate_report_api pf ts now uid iid d)) = interview_rows j d"
    proof (cases "j = iid")
      case True
      with other not_owned_rejected(2,4) [of d iid uid] show ?thesis by simp
    next
      case False
      obtain r1 d1 where s: "stt_endpoint pf reply tr uid iid idx d = (r1, d1)"
        by (cases "stt_endpoint pf reply tr uid iid idx d") auto
      obtain r2 d2 where g: "generate_report_api pf ts now uid iid d = (r2, d2)"
        by (cases "generate_report_api pf ts now uid iid d") auto
      from False stt_endpoint_frame [OF s, of j] generate_report_frame [OF g, of j] s g
      show ?thesis by simp
    qed
  qed
  have reads: "question_page uid iid idx (own_part uid d) = question_page uid iid idx d
      \<and> fst (stt_endpoint pf reply tr uid iid idx (own_part uid d))
           = fst (stt_endpoint pf reply tr uid iid idx d)
      \<and> immediate_result pf uid iid (own_part uid d) = immediate_result pf uid iid d
      \<and> fst (generate_report_api pf ts now uid iid (own_part uid d))
           = fst (generate_report_api pf ts now uid iid d)"
    by (simp add: stt_endpoint_own_part reads_own_part)
  from rejected untouched reads show ?thesis by blast
qed

lemma db1_other: "\<forall>i\<in>set (interviews db1). i_id i = 1 \<longrightarrow> i_user_id i \<noteq> 2"
  by code_simp

theorem ownership_isolation_witness:
  "question_page 2 1 0 db1 = Inl NotFound
   \<and> stt_endpoint plain CallFailed ''an answer'' 2 1 0 db1 = (Inl NotFound, db1)
   \<and> immediate_result plain 2 1 db1 = Inl NotFound
   \<and> generate_report_api plain 1700000000 1700000001 2 1 db1 = (Inl NotFound, db1)
   \<and> interview_rows 1 (snd (stt_endpoint plain CallFailed ''an answer'' 2 2 0 db1))
        = interview_rows 1 db1"
  using ownership_isolation [where d = db1 and iid = 1 and uid = 2 and idx = 0 and pf = plain
      and reply = CallFailed and tr = "''an answer''" and ts = 1700000000 and now = 1700000001
      and j = 1]
    ownership_isolation [where d = db1 and iid = 2 and uid = 2 and idx = 0 and pf = plain
      and reply = CallFailed and tr = "''an answer''" and ts = 1700000000 and now = 1700000001
      and j = 1]
    db1_other
  by blast

section \<open>The question index\<close>

lemma question_page_complete:
  assumes "find_interview d iid uid = Some iv" and "py_len (i_questions iv) = Some n"
    and "int n \<le> idx"
  shows "question_page uid iid idx d = Inr (ResultRedirect iid)"
  using assms by (simp add: question_page_def)

lemma stt_endpoint_index_too_large:
  assumes "find_interview d iid uid = Some iv" and "py_len (i_questions iv) = Some n"
    and "int n \<le> idx"
  shows "stt_endpoint pf reply tr uid iid idx d = (Inl InvalidIndex, d)"
  using assms by (simp add: stt_endpoint_def)

lemma record_and_score_not_invalid:
  "fst (record_and_score pf reply tr iid q qt d) \<noteq> Inl InvalidIndex"
  by (auto simp: record_and_score_def split: option.splits prod.splits)

lemma db1_interview:
  "find_interview db1 1 1 = Some (hd (interviews db1))"
  "i_questions (hd (interviews db1)) = JArr python_placeholders"
  by code_simp+

lemma find_update_first:
  assumes "\<And>x. P x \<Longrightarrow> P (f x)"
  shows "find P (update_first P f xs) = map_option f (find P xs)"
  using assms by (induction xs) auto

lemma find_snoc:
  "find P (xs @ [x]) = (case find P xs of None \<Rightarrow> (if P x then Some x else None) | Some a \<Rightarrow> Some a)"
  by (induction xs) auto

lemma save_answer_records:
  assumes "save_answer pf iid q qt tr d = Some d1" and "py_getitem q ''question'' = Some qt"
    and "text_col pf qt = Some key"
  shows "map_option a_answer_text
           (find (\<lambda>a. a_interview_id a = iid \<and> a_question_text a = key) (answers d1))
         = Some (Some tr)"
proof (cases "find (\<lambda>a. a_interview_id a = iid \<and> a_question_text a = key) (answers d)")
  case None
  then obtain row where row: "new_answer pf iid (Some tr) q = Some row"
      and d1: "d1 = d\<lparr>answers := answers d @ [row]\<rparr>"
    using assms(1,3) by (auto simp: save_answer_def split: option.splits)
  from row assms(2,3) have "a_interview_id row = iid \<and> a_question_text row = key
      \<and> a_answer_text row = Some tr"
    by (auto simp: new_answer_def split: json.splits option.splits prod.splits)
  with None d1 show ?thesis
    by (simp add: find_snoc)
next
  case (Some a)
  with assms(1,3) have "d1 = d\<lparr>answers :=
      update_first (\<lambda>a. a_interview_id a = iid \<and> a_question_text a = key)
        (\<lambda>a. a\<lparr>a_answer_text := Some tr\<rparr>) (answers d)\<rparr>"
    by (auto simp: save_answer_def)
  moreover have "find (\<lambda>a. a_interview_id a = iid \<and> a_question_text a = key)
      (update_first (\<lambda>a. a_interview_id a = iid \<and> a_question_text a = key)
        (\<lambda>a. a\<lparr>a_answer_text := Some tr\<rparr>) (answers d))
    = map_option (\<lambda>a. a\<lparr>a_answer_text := Some tr\<rparr>)
        (find (\<lambda>a. a_interview_id a = iid \<and> a_question_text a = key) (answers d))"
    by (rule find_update_first) simp
  ultimately show ?thesis
    using Some by simp
qed

text \<open>
  C7. The question page of an index at or beyond the number of questions leads to
  the result view (\<open>question_page_complete\<close>), and an answer for such an index is
  rejected with InvalidIndex (\<open>stt_endpoint_index_too_large\<close>). A recorded answer is
  in the row of its question text, created when there was none
  (\<open>save_answer_records\<close>). An answer for any
  other index outside the range must be rejected in the same way; but the check is
  \<^verbatim>\<open>q_index >= len(questions)\<close> alone, and the submission with index -1 to an
  interview of 15 questions is accepted: it writes the transcript into the answer
  of the last question and appends a score.
\<close>

theorem record_answer_negative_index:
  "fst (stt_endpoint plain CallFailed ''my answer'' 1 1 (- 1) db1)
     = Inr (''my answer'', 0, JStr ''Automated fallback feedback.'')
   \<and> fst (stt_endpoint plain CallFailed ''my answer'' 1 1 (- 1) db1) \<noteq> Inl InvalidIndex
   \<and> py_len (i_questions (hd (interviews db1))) = Some 15
   \<and> a_answer_text (answers db1 ! 14) = None
   \<and> a_answer_text (answers (snd (stt_endpoint plain CallFailed ''my answer'' 1 1 (- 1) db1)) ! 14)
       = Some ''my answer''
   \<and> scores (snd (stt_endpoint plain CallFailed ''my answer'' 1 1 (- 1) db1))
       = [\<lparr>s_interview_id = 1, s_skill = Some ''Python'', s_obtained = Some 0, s_total = Some 5\<rparr>]"
  by code_simp

text \<open>
  C10. A negative index passes the bound check of the question page and of the
  answer submission. When it is at least \<open>- length questions\<close>, Python's indexing
  takes the question at \<open>length questions + index\<close>: the submission does exactly
  what the submission with that index does, and the page shows that question. Below
  \<open>- length questions\<close> the list access raises: both requests end in a server
  error and nothing is recorded.
\<close>

theorem negative_index_accepted:
  assumes "find_interview d iid uid = Some iv" and "i_questions iv = JArr qs" and "idx < 0"
  shows "(- int (length qs) \<le> idx \<longrightarrow>
            stt_endpoint pf reply tr uid iid idx d
              = stt_endpoint pf reply tr uid iid (int (length qs) + idx) d
          \<and> fst (stt_endpoint pf reply tr uid iid idx d) \<noteq> Inl InvalidIndex
          \<and> question_page uid iid idx d =
              (case py_getitem (qs ! nat (int (length qs) + idx)) ''question'' of
                 None \<Rightarrow> Inl ServerError
               | Some question \<Rightarrow> Inr (QuestionPage iid idx question (length qs))))
       \<and> (idx < - int (length qs) \<longrightarrow>
            stt_endpoint pf reply tr uid iid idx d = (Inl ServerError, d)
          \<and> question_page uid iid idx d = Inl ServerError)"
proof (intro conjI impI)
  assume low: "idx < - int (length qs)"
  with assms show "stt_endpoint pf reply tr uid iid idx d = (Inl ServerError, d)"
    by (simp add: stt_endpoint_def list_index_def)
  from low assms show "question_page uid iid idx d = Inl ServerError"
    by (simp add: question_page_def list_index_def)
next
  assume inr: "- int (length qs) \<le> idx"
  with assms have ix: "py_index (JArr qs) idx = Some (qs ! nat (int (length qs) + idx))"
      "py_index (JArr qs) (int (length qs) + idx) = Some (qs ! nat (int (length qs) + idx))"
    by (simp_all add: list_index_def)
  from assms inr ix show "stt_endpoint pf reply tr uid iid idx d
              = stt_endpoint pf reply tr uid iid (int (length qs) + idx) d"
    by (simp add: stt_endpoint_def)
  from assms inr ix show "fst (stt_endpoint pf reply tr uid iid idx d) \<noteq> Inl InvalidIndex"
    by (simp add: stt_endpoint_def record_and_score_not_invalid split: option.splits)
  from assms inr ix show "question_page uid iid idx d =
              (case py_getitem (qs ! nat (int (length qs) + idx)) ''question'' of
                 None \<Rightarrow> Inl ServerError
               | Some question \<Rightarrow> Inr (QuestionPage iid idx question (length qs)))"
    by (simp add: question_page_def)
qed

theorem negative_index_accepted_witness:
  "stt_endpoint plain CallFailed ''my answer'' 1 1 (- 2) db1
     = stt_endpoint plain CallFailed ''my answer'' 1 1 13 db1
   \<and> fst (stt_endpoint plain CallFailed ''my answer'' 1 1 (- 2) db1) \<noteq> Inl InvalidIndex
   \<and> question_page 1 1 (- 2) db1
     = Inr (QuestionPage 1 (- 2) (JStr ''Placeholder question #14 for Python'') 15)"
proof -
  have neg: "(- 2 :: int) < 0" by simp
  have q: "py_getitem (python_placeholders ! 13) ''question''
             = Some (JStr ''Placeholder question #14 for Python'')"
    by code_simp
  have inr: "- int (length python_placeholders) \<le> (- 2 :: int)"
    by (simp add: python_placeholders_def)
  note T = negative_index_accepted [OF db1_interview neg, of plain CallFailed "''my answer''",
      THEN conjunct1, rule_format, OF inr]
  have a: "stt_endpoint plain CallFailed ''my answer'' 1 1 (- 2) db1
     = stt_endpoint plain CallFailed ''my answer'' 1 1 13 db1"
    using T [THEN conjunct1] by (simp add: python_placeholders_def)
  have b: "fst (stt_endpoint plain CallFailed ''my answer'' 1 1 (- 2) db1) \<noteq> Inl InvalidIndex"
    by (rule T [THEN conjunct2, THEN conjunct1])
  have c: "question_page 1 1 (- 2) db1
     = Inr (QuestionPage 1 (- 2) (JStr ''Placeholder question #14 for Python'') 15)"
    using T [THEN conjunct2, THEN conjunct2] q
    by (simp add: python_placeholders_def [symmetric])
       (simp add: python_placeholders_def)
  from a b c show ?thesis by blast
qed

text \<open>Index -16 on 15 questions: no question is selected and the requests fail.\<close>

theorem negative_index_below_range:
  "stt_endpoint plain CallFailed ''my answer'' 1 1 (- 16) db1 = (Inl ServerError, db1)
   \<and> question_page 1 1 (- 16) db1 = Inl ServerError
   \<and> py_len (i_questions (hd (interviews db1))) = Some 15"
  by code_simp

section \<open>Properties of the report generation\<close>

lemma digit_cases:
  "(d::nat) < 10 \<Longrightarrow>
     d = 0 \<or> d = 1 \<or> d = 2 \<or> d = 3 \<or> d = 4 \<or> d = 5 \<or> d = 6 \<or> d = 7 \<or> d = 8 \<or> d = 9"
  by arith

lemma digit_val_digit_char: "d < 10 \<Longrightarrow> digit_val (digit_char d) = d"
  by (drule digit_cases) (auto simp: digit_val_def digit_char_def)

lemma digit_char_not_minus: "d < 10 \<Longrightarrow> digit_char d \<noteq> CHR ''-''"
  by (drule digit_cases) (auto simp: digit_char_def)

lemma nat_of_digits_str_nat: "nat_of_digits (str_nat n) = n"
proof (induction n rule: str_nat.induct)
  case (1 n)
  show ?case
  proof (cases "n < 10")
    case True
    then show ?thesis
      by (subst str_nat.simps) (simp add: nat_of_digits_def digit_val_digit_char)
  next
    case False
    with "1" have "nat_of_digits (str_nat (n div 10)) = n div 10" by simp
    with False show ?thesis
      by (subst str_nat.simps) (simp add: nat_of_digits_def digit_val_digit_char)
  qed
qed

lemma str_nat_inj: "str_nat m = str_nat n \<Longrightarrow> m = n"
  by (metis nat_of_digits_str_nat)

lemma str_nat_nonempty: "str_nat n \<noteq> []"
  by (subst str_nat.simps) simp

lemma hd_str_nat_not_minus: "hd (str_nat n) \<noteq> CHR ''-''"
proof (induction n rule: str_nat.induct)
  case (1 n)
  show ?case
  proof (cases "n < 10")
    case True
    then show ?thesis
      by (subst str_nat.simps) (simp add: digit_char_not_minus)
  next
    case False
    with "1" str_nat_nonempty [of "n div 10"] show ?thesis
      by (subst str_nat.simps) simp
  qed
qed

lemma str_int_inj: "str_int a = str_int b \<Longrightarrow> a = b"
proof -
  assume eq: "str_int a = str_int b"
  have neg: "CHR ''-'' # str_nat m \<noteq> str_nat n" for m n
    using hd_str_nat_not_minus [of n] by (metis list.sel(1))
  show "a = b"
  proof (cases "a < 0")
    case True
    show ?thesis
    proof (cases "b < 0")
      case True
      with \<open>a < 0\<close> eq have "nat (- a) = nat (- b)"
        by (auto simp: str_int_def dest: str_nat_inj)
      with True \<open>a < 0\<close> show ?thesis by simp
    next
      case False
      with True eq neg show ?thesis by (simp add: str_int_def)
    qed
  next
    case False
    show ?thesis
    proof (cases "b < 0")
      case True
      with False eq neg [of "nat (- b)" "nat a"] show ?thesis by (simp add: str_int_def)
    next
      case bpos: False
      with False eq have "nat a = nat b"
        by (auto simp: str_int_def dest: str_nat_inj)
      with False bpos show ?thesis by simp
    qed
  qed
qed

lemma generate_pdf_report_inj:
  "generate_pdf_report iid ts1 = generate_pdf_report iid ts2 \<Longrightarrow> ts1 = ts2"
  by (auto simp: generate_pdf_report_def dest: str_int_inj)

lemma py_sum_Some:
  assumes "\<forall>x\<in>set xs. x \<noteq> None"
  shows "\<exists>n. py_sum xs = Some n"
proof -
  have "\<forall>x\<in>set xs. x \<noteq> None \<Longrightarrow> \<exists>ys. those xs = Some ys" for xs :: "int option list"
    by (induction xs) auto
  with assms show ?thesis by (auto simp: py_sum_def)
qed

lemma generate_report_api_found:
  assumes "find_interview d iid uid = Some iv"
    and "py_sum (map s_obtained (filter (\<lambda>s. s_interview_id s = iid) (scores d))) = Some a"
    and "py_sum (map s_total (filter (\<lambda>s. s_interview_id s = iid) (scores d))) = Some b"
  shows "generate_report_api pf ts now uid iid d =
    (Inr (''/reports/'' @ basename (generate_pdf_report iid ts), generate_pdf_report iid ts),
     d\<lparr>reports := reports d @
       [\<lparr>r_interview_id = iid, r_overall_score = percent pf a b,
         r_pdf_path = generate_pdf_report iid ts, r_generated_at = now\<rparr>]\<rparr>)"
  using assms by (simp add: generate_report_api_def Let_def)

lemma generate_report_api_null:
  assumes "find_interview d iid uid = Some iv"
    and "py_sum (map s_obtained (filter (\<lambda>s. s_interview_id s = iid) (scores d))) = None
       \<or> py_sum (map s_total (filter (\<lambda>s. s_interview_id s = iid) (scores d))) = None"
  shows "generate_report_api pf ts now uid iid d = (Inl ServerError, d)"
  using assms by (auto simp: generate_report_api_def Let_def split: option.splits)

lemma find_interview_reports:
  "find_interview (d\<lparr>reports := rs\<rparr>) iid uid = find_interview d iid uid"
  by (simp add: find_interview_def)

lemma db_done_value:
  "db_done =
     \<lparr>interviews = [\<lparr>i_id = 1, i_user_id = 1, i_type = ''technical'', i_date = 100,
                      i_questions = one_question\<rparr>],
      answers = [\<lparr>a_interview_id = 1, a_question_text = Some ''What is a join?'',
                   a_answer_text = Some ''It combines rows of two tables'',
                   a_skill = Some ''Sql'', a_max_score = Some 5\<rparr>],
      scores = [\<lparr>s_interview_id = 1, s_skill = Some ''Sql'', s_obtained = Some 4,
                  s_total = Some 5\<rparr>],
      reports = [],
      resumes = [\<lparr>res_user_id = 1, res_skills = [''Python'']\<rparr>]\<rparr>"
  by code_simp

lemma db_null_value:
  "db_null =
     \<lparr>interviews = [\<lparr>i_id = 1, i_user_id = 1, i_type = ''technical'', i_date = 100,
                      i_questions = null_question\<rparr>],
      answers = [\<lparr>a_interview_id = 1, a_question_text = Some ''What is a join?'',
                   a_answer_text = Some ''It combines rows of two tables'',
                   a_skill = Some ''Sql'', a_max_score = None\<rparr>],
      scores = [\<lparr>s_interview_id = 1, s_skill = Some ''Sql'', s_obtained = Some 0,
                  s_total = None\<rparr>],
      reports = [],
      resumes = [\<lparr>res_user_id = 1, res_skills = [''Python'']\<rparr>]\<rparr>"
  by code_simp

lemma db_done_interview: "find_interview db_done 1 1 = Some (hd (interviews db_done))"
  by (simp add: db_done_value find_interview_def)

lemma db_done_sums:
  "py_sum (map s_obtained (filter (\<lambda>s. s_interview_id s = 1) (scores db_done))) = Some 4"
  "py_sum (map s_total (filter (\<lambda>s. s_interview_id s = 1) (scores db_done))) = Some 5"
  by (simp_all add: db_done_value py_sum_def)

lemma sample_path:
  "generate_pdf_report 1 1700000000 = ''reports/report_1_1700000000.pdf''"
  "basename ''reports/report_1_1700000000.pdf'' = ''report_1_1700000000.pdf''"
  by (simp_all add: generate_pdf_report_def str_int_def str_nat.simps digit_char_def basename_def)

text \<open>
  C9. Two report generations for the same interview, in any two states of the
  database that hold the same score rows for the interview, all with integer
  scores: both succeed, each appends a report record, and both records carry the
  same overall score. The two artifact paths are equal exactly when the two calls
  read the same whole second from the clock; calls in different seconds produce
  distinct paths.
\<close>

theorem report_twice:
  assumes "find_interview d1 iid uid = Some iv1" and "find_interview d2 iid uid = Some iv2"
    and "filter (\<lambda>s. s_interview_id s = iid) (scores d2)
       = filter (\<lambda>s. s_interview_id s = iid) (scores d1)"
    and "\<forall>s\<in>set (scores d1). s_interview_id s = iid \<longrightarrow> s_obtained s \<noteq> None \<and> s_total s \<noteq> None"
  shows "\<exists>p1 p2 r1 r2.
      generate_report_api pf ts1 now1 uid iid d1
        = (Inr (''/reports/'' @ basename p1, p1), d1\<lparr>reports := reports d1 @ [r1]\<rparr>)
    \<and> generate_report_api pf ts2 now2 uid iid d2
        = (Inr (''/reports/'' @ basename p2, p2), d2\<lparr>reports := reports d2 @ [r2]\<rparr>)
    \<and> r_pdf_path r1 = p1 \<and> r_pdf_path r2 = p2
    \<and> r_overall_score r1 = r_overall_score r2
    \<and> (p1 = p2) = (ts1 = ts2)"
proof -
  let ?rows = "filter (\<lambda>s. s_interview_id s = iid) (scores d1)"
  from assms(4) have "\<forall>x\<in>set (map s_obtained ?rows). x \<noteq> None"
    by auto
  from py_sum_Some [OF this] obtain a where a: "py_sum (map s_obtained ?rows) = Some a" ..
  from assms(4) have "\<forall>x\<in>set (map s_total ?rows). x \<noteq> None"
    by auto
  from py_sum_Some [OF this] obtain b where b: "py_sum (map s_total ?rows) = Some b" ..
  let ?r1 = "\<lparr>r_interview_id = iid, r_overall_score = percent pf a b,
              r_pdf_path = generate_pdf_report iid ts1, r_generated_at = now1\<rparr>"
  let ?r2 = "\<lparr>r_interview_id = iid, r_overall_score = percent pf a b,
              r_pdf_path = generate_pdf_report iid ts2, r_generated_at = now2\<rparr>"
  have one: "generate_report_api pf ts1 now1 uid iid d1
        = (Inr (''/reports/'' @ basename (generate_pdf_report iid ts1), generate_pdf_report iid ts1),
           d1\<lparr>reports := reports d1 @ [?r1]\<rparr>)"
    by (rule generate_report_api_found [OF assms(1) a b])
  have two: "generate_report_api pf ts2 now2 uid iid d2
        = (Inr (''/reports/'' @ basename (generate_pdf_report iid ts2), generate_pdf_report iid ts2),
           d2\<lparr>reports := reports d2 @ [?r2]\<rparr>)"
    using a b by (intro generate_report_api_found [OF assms(2)]) (simp_all add: assms(3))
  have paths: "(generate_pdf_report iid ts1 = generate_pdf_report iid ts2) = (ts1 = ts2)"
    using generate_pdf_report_inj by blast
  show ?thesis
    apply (rule exI [where x = "generate_pdf_report iid ts1"])
    apply (rule exI [where x = "generate_pdf_report iid ts2"])
    apply (rule exI [where x = ?r1])
    apply (rule exI [where x = ?r2])
    apply (simp only: one two paths)
    apply simp
    done
qed

text \<open>
  The second call right after the first, seven seconds later: the first call leaves
  the interview and its score rows as they are.
\<close>

theorem report_twice_witness:
  "\<exists>p1 p2 r1 r2.
      generate_report_api plain 1700000000 1700000000 1 1 db_done
        = (Inr (''/reports/'' @ basename p1, p1), db_done\<lparr>reports := reports db_done @ [r1]\<rparr>)
    \<and> generate_report_api plain 1700000007 1700000007 1 1
          (snd (generate_report_api plain 1700000000 1700000000 1 1 db_done))
        = (Inr (''/reports/'' @ basename p2, p2),
           (snd (generate_report_api plain 1700000000 1700000000 1 1 db_done))
             \<lparr>reports := reports (snd (generate_report_api plain 1700000000 1700000000 1 1 db_done))
                           @ [r2]\<rparr>)
    \<and> r_pdf_path r1 = p1 \<and> r_pdf_path r2 = p2
    \<and> r_overall_score r1 = r_overall_score r2
    \<and> p1 \<noteq> p2"
proof -
  let ?d2 = "snd (generate_report_api plain 1700000000 1700000000 1 1 db_done)"
  have first: "?d2 = db_done\<lparr>reports := reports db_done @
       [\<lparr>r_interview_id = 1, r_overall_score = percent plain 4 5,
         r_pdf_path = generate_pdf_report 1 1700000000, r_generated_at = 1700000000\<rparr>]\<rparr>"
    by (simp add: generate_report_api_found [OF db_done_interview db_done_sums])
  have f2: "find_interview ?d2 1 1 = Some (hd (interviews db_done))"
    by (simp add: first find_interview_reports db_done_interview)
  have same: "filter (\<lambda>s. s_interview_id s = 1) (scores ?d2)
       = filter (\<lambda>s. s_interview_id s = 1) (scores db_done)"
    by (simp add: first)
  have ints: "\<forall>s\<in>set (scores db_done). s_interview_id s = 1
       \<longrightarrow> s_obtained s \<noteq> None \<and> s_total s \<noteq> None"
    by (simp add: db_done_value)
  from report_twice [OF db_done_interview f2 same ints,
      of plain 1700000000 1700000000 1700000007 1700000007]
  show ?thesis by simp
qed

text \<open>
  Two generations within one second give one path. And for the interview whose
  question had \<^verbatim>\<open>"max_score": null\<close> the sum of the totals raises: no report is
  recorded.
\<close>

theorem report_twice_same_second:
  "fst (generate_report_api plain 1700000000 1700000000 1 1 db_done)
     = Inr (''/reports/report_1_1700000000.pdf'', ''reports/report_1_1700000000.pdf'')
   \<and> fst (generate_report_api plain 1700000000 1700000000 1 1
            (snd (generate_report_api plain 1700000000 1700000000 1 1 db_done)))
     = Inr (''/reports/report_1_1700000000.pdf'', ''reports/report_1_1700000000.pdf'')
   \<and> reports (snd (generate_report_api plain 1700000000 1700000000 1 1
            (snd (generate_report_api plain 1700000000 1700000000 1 1 db_done))))
     = [\<lparr>r_interview_id = 1, r_overall_score = TimesInt (TrueDiv 4 5) 100,
          r_pdf_path = ''reports/report_1_1700000000.pdf'', r_generated_at = 1700000000\<rparr>,
        \<lparr>r_interview_id = 1, r_overall_score = TimesInt (TrueDiv 4 5) 100,
          r_pdf_path = ''reports/report_1_1700000000.pdf'', r_generated_at = 1700000000\<rparr>]
   \<and> generate_report_api plain 1700000000 1700000000 1 1 db_null = (Inl ServerError, db_null)"
proof -
  let ?d1 = "snd (generate_report_api plain 1700000000 1700000000 1 1 db_done)"
  have pct: "percent plain 4 5 = TimesInt (TrueDiv 4 5) 100"
    by (simp add: percent_def plain_def)
  have empty: "reports db_done = []" by (simp add: db_done_value)
  have one: "generate_report_api plain 1700000000 1700000000 1 1 db_done
    = (Inr (''/reports/report_1_1700000000.pdf'', ''reports/report_1_1700000000.pdf''),
       db_done\<lparr>reports :=
         [\<lparr>r_interview_id = 1, r_overall_score = TimesInt (TrueDiv 4 5) 100,
           r_pdf_path = ''reports/report_1_1700000000.pdf'', r_generated_at = 1700000000\<rparr>]\<rparr>)"
    using generate_report_api_found [OF db_done_interview db_done_sums, of plain 1700000000 1700000000]
    by (simp add: sample_path pct empty)
  have f1: "find_interview ?d1 1 1 = Some (hd (interviews db_done))"
    by (simp add: one find_interview_reports db_done_interview)
  have sums: "py_sum (map s_obtained (filter (\<lambda>s. s_interview_id s = 1) (scores ?d1))) = Some 4"
    "py_sum (map s_total (filter (\<lambda>s. s_interview_id s = 1) (scores ?d1))) = Some 5"
    using db_done_sums by (simp_all add: one)
  have two: "generate_report_api plain 1700000000 1700000000 1 1 ?d1
    = (Inr (''/reports/report_1_1700000000.pdf'', ''reports/report_1_1700000000.pdf''),
       ?d1\<lparr>reports := reports ?d1 @
         [\<lparr>r_interview_id = 1, r_overall_score = TimesInt (TrueDiv 4 5) 100,
           r_pdf_path = ''reports/report_1_1700000000.pdf'', r_generated_at = 1700000000\<rparr>]\<rparr>)"
    using generate_report_api_found [OF f1 sums, of plain 1700000000 1700000000]
    by (simp add: sample_path pct)
  have null: "generate_report_api plain 1700000000 1700000000 1 1 db_null = (Inl ServerError, db_null)"
    by (rule generate_report_api_null [where iv = "hd (interviews db_null)"])
       (simp_all add: db_null_value find_interview_def py_sum_def)
  show ?thesis
    by (simp add: two null) (simp add: one)
qed

section \<open>One answer row per question text\<close>

lemma map_key_update_first:
  "map answer_key (update_first P (\<lambda>a. a\<lparr>a_answer_text := t\<rparr>) xs) = map answer_key xs"
  by (induction xs) (auto simp: answer_key_def)

lemma new_answer_key:
  assumes "new_answer pf iid t q = Some row"
  shows "a_interview_id row = iid"
    and "\<exists>qt. py_getitem q ''question'' = Some qt \<and> text_col pf qt = Some (a_question_text row)"
  using assms
  by (auto simp: new_answer_def split: json.splits option.splits prod.splits)

lemma save_answer_keys:
  assumes "save_answer pf iid q qt tr d = Some d1" and "py_getitem q ''question'' = Some qt"
  shows "interviews d1 = interviews d"
    and "map answer_key (answers d1) = map answer_key (answers d)
       \<or> (\<exists>k. fst k = iid \<and> k \<notin> set (map answer_key (answers d))
              \<and> map answer_key (answers d1) = map answer_key (answers d) @ [k])"
proof -
  obtain key where key: "text_col pf qt = Some key"
    using assms(1) by (auto simp: save_answer_def split: option.splits)
  show "interviews d1 = interviews d"
    using assms(1) by (auto simp: save_answer_def split: option.splits)
  show "map answer_key (answers d1) = map answer_key (answers d)
       \<or> (\<exists>k. fst k = iid \<and> k \<notin> set (map answer_key (answers d))
              \<and> map answer_key (answers d1) = map answer_key (answers d) @ [k])"
  proof (cases "find (\<lambda>a. a_interview_id a = iid \<and> a_question_text a = key) (answers d)")
    case None
    then obtain row where row: "new_answer pf iid (Some tr) q = Some row"
        and d1: "d1 = d\<lparr>answers := answers d @ [row]\<rparr>"
      using assms(1) key by (auto simp: save_answer_def split: option.splits)
    from new_answer_key [OF row] assms(2) key have k: "answer_key row = (iid, key)"
      by (auto simp: answer_key_def)
    from None have "(iid, key) \<notin> set (map answer_key (answers d))"
      by (auto simp: find_None_iff answer_key_def)
    with k d1 show ?thesis by auto
  next
    case (Some a)
    with assms(1) key show ?thesis
      by (auto simp: save_answer_def map_key_update_first)
  qed
qed

lemma save_score_answers:
  "save_score pf iid q n d = Some d1 \<Longrightarrow> answers d1 = answers d \<and> interviews d1 = interviews d"
  by (auto simp: save_score_def split: json.splits option.splits prod.splits)

text \<open>
  A submission leaves the keys of the answer rows as they are, or appends one key
  of its interview that no row had.
\<close>

lemma stt_endpoint_keys:
  "interviews (snd (stt_endpoint pf reply tr uid iid idx d)) = interviews d
   \<and> (map answer_key (answers (snd (stt_endpoint pf reply tr uid iid idx d)))
         = map answer_key (answers d)
      \<or> (\<exists>k. fst k = iid \<and> find_interview d iid uid \<noteq> None
             \<and> k \<notin> set (map answer_key (answers d))
             \<and> map answer_key (answers (snd (stt_endpoint pf reply tr uid iid idx d)))
                 = map answer_key (answers d) @ [k]))"
proof -
  let ?d' = "snd (stt_endpoint pf reply tr uid iid idx d)"
  have "?d' = d \<or> (find_interview d iid uid \<noteq> None \<and>
          (\<exists>q qt d1. py_getitem q ''question'' = Some qt \<and>
             save_answer pf iid q qt tr d = Some d1 \<and>
             (?d' = d1 \<or> (\<exists>n. save_score pf iid q n d1 = Some ?d'))))"
    by (auto simp: stt_endpoint_def record_and_score_def Let_def
        split: option.splits if_splits prod.splits)
  then show ?thesis
  proof
    assume "?d' = d"
    then show ?thesis by simp
  next
    assume "find_interview d iid uid \<noteq> None \<and>
          (\<exists>q qt d1. py_getitem q ''question'' = Some qt \<and>
             save_answer pf iid q qt tr d = Some d1 \<and>
             (?d' = d1 \<or> (\<exists>n. save_score pf iid q n d1 = Some ?d')))"
    then obtain q qt d1 where owned: "find_interview d iid uid \<noteq> None"
      and g: "py_getitem q ''question'' = Some qt"
      and a: "save_answer pf iid q qt tr d = Some d1"
      and b: "?d' = d1 \<or> (\<exists>n. save_score pf iid q n d1 = Some ?d')"
      by blast
    from b have same: "answers ?d' = answers d1 \<and> interviews ?d' = interviews d1"
      using save_score_answers by metis
    from save_answer_keys [OF a g] same owned show ?thesis by metis
  qed
qed

text \<open>So a submission never gives a question text of an interview a second row.\<close>

lemma stt_endpoint_texts:
  assumes "distinct (answer_texts j d)"
  shows "distinct (answer_texts j (snd (stt_endpoint pf reply tr uid iid idx d)))"
proof -
  let ?d' = "snd (stt_endpoint pf reply tr uid iid idx d)"
  from stt_endpoint_keys [of pf reply tr uid iid idx d]
  have "map answer_key (answers ?d') = map answer_key (answers d)
      \<or> (\<exists>k. k \<notin> set (map answer_key (answers d))
             \<and> map answer_key (answers ?d') = map answer_key (answers d) @ [k])"
    by blast
  then show ?thesis
  proof
    assume "map answer_key (answers ?d') = map answer_key (answers d)"
    with assms show ?thesis by (simp add: answer_texts_def)
  next
    assume "\<exists>k. k \<notin> set (map answer_key (answers d))
             \<and> map answer_key (answers ?d') = map answer_key (answers d) @ [k]"
    then obtain k where fresh: "k \<notin> set (map answer_key (answers d))"
      and keys: "map answer_key (answers ?d') = map answer_key (answers d) @ [k]"
      by blast
    have "snd k \<notin> set (answer_texts j d)" if "fst k = j"
    proof
      assume "snd k \<in> set (answer_texts j d)"
      then obtain k' where k': "k' \<in> set (map answer_key (answers d))"
        and "fst k' = j" and "snd k' = snd k"
        by (auto simp: answer_texts_def)
      with that have "k' = k" by (simp add: prod_eq_iff)
      with k' fresh show False by simp
    qed
    with assms keys show ?thesis
      by (simp add: answer_texts_def)
  qed
qed

lemma new_answer_other_id:
  "new_answer pf iid t q = Some row \<Longrightarrow> new_answer pf j t q = Some (row\<lparr>a_interview_id := j\<rparr>)"
  by (auto simp: new_answer_def split: json.splits option.splits prod.splits)

lemma those_new_answers:
  "those (map (new_answer pf iid t) qs) = Some rows \<Longrightarrow>
     those (map (new_answer pf j t) qs) = Some (map (\<lambda>a. a\<lparr>a_interview_id := j\<rparr>) rows)
     \<and> list_all (\<lambda>a. a_interview_id a = iid) rows"
proof (induction qs arbitrary: rows)
  case Nil
  then show ?case by simp
next
  case (Cons q qs)
  from Cons.prems obtain row rest where row: "new_answer pf iid t q = Some row"
    and rest: "those (map (new_answer pf iid t) qs) = Some rest" and rows: "rows = row # rest"
    by (auto split: option.splits)
  from Cons.IH [OF rest] new_answer_other_id [OF row, of j] new_answer_key(1) [OF row] rows
  show ?case by simp
qed

lemma answer_rows_props:
  assumes "answer_rows pf iid qj = Some rows"
  shows "list_all (\<lambda>a. a_interview_id a = iid) rows"
    and "\<exists>rows0. answer_rows pf 0 qj = Some rows0
           \<and> map a_question_text rows0 = map a_question_text rows"
proof -
  from assms obtain qs where qs: "py_iter qj = Some qs"
    and th: "those (map (new_answer pf iid None) qs) = Some rows"
    by (auto simp: answer_rows_def split: option.splits)
  from those_new_answers [OF th, of 0] show "list_all (\<lambda>a. a_interview_id a = iid) rows"
    by simp
  from those_new_answers [OF th, of 0] qs
  show "\<exists>rows0. answer_rows pf 0 qj = Some rows0
           \<and> map a_question_text rows0 = map a_question_text rows"
    by (simp add: answer_rows_def comp_def)
qed

text \<open>
  What a start leaves behind: nothing, or a new interview with the next number,
  with no answer rows or with those of its question set.
\<close>

lemma start_interview_shape:
  "snd (start_interview pf reply now uid ty d) = d
   \<or> (\<exists>iv. i_id iv = int (length (interviews d)) + 1
        \<and> (snd (start_interview pf reply now uid ty d) = d\<lparr>interviews := interviews d @ [iv]\<rparr>
           \<or> (\<exists>rows. answer_rows pf (int (length (interviews d)) + 1) (i_questions iv) = Some rows
                \<and> snd (start_interview pf reply now uid ty d)
                    = d\<lparr>interviews := interviews d @ [iv], answers := answers d @ rows\<rparr>)))"
proof (cases "find (\<lambda>r. res_user_id r = uid) (resumes d)")
  case None
  then show ?thesis by (simp add: start_interview_def)
next
  case found: (Some doc)
  show ?thesis
  proof (cases "generate_questions reply (skills_or_general (res_skills doc))")
    case None
    with found show ?thesis by (simp add: start_interview_def)
  next
    case questions: (Some qj)
    let ?iv = "\<lparr>i_id = int (length (interviews d)) + 1, i_user_id = uid, i_type = ty,
                i_date = now, i_questions = qj\<rparr>"
    have id: "i_id ?iv = int (length (interviews d)) + 1" and qs: "i_questions ?iv = qj"
      by simp_all
    show ?thesis
    proof (cases "answer_rows pf (int (length (interviews d)) + 1) qj")
      case None
      with found questions have "snd (start_interview pf reply now uid ty d)
          = d\<lparr>interviews := interviews d @ [?iv]\<rparr>"
        by (simp add: start_interview_def Let_def)
      with id show ?thesis by blast
    next
      case (Some rows)
      with found questions
      have "snd (start_interview pf reply now uid ty d)
          = d\<lparr>interviews := interviews d @ [?iv], answers := answers d @ rows\<rparr>"
        by (simp add: start_interview_def Let_def split: option.splits)
      with id qs Some show ?thesis by metis
    qed
  qed
qed

lemma texts_of_new_rows:
  assumes "list_all (\<lambda>a. a_interview_id a = iid) rows"
  shows "map snd (filter (\<lambda>k. fst k = j) (map answer_key rows))
       = (if j = iid then map a_question_text rows else [])"
  using assms by (induction rows) (auto simp: answer_key_def)

lemma texts_out_of_range:
  assumes "ids_in_range d" and "int (length (interviews d)) < j"
  shows "answer_texts j d = []"
proof -
  from assms have "\<forall>k\<in>set (map answer_key (answers d)). fst k \<noteq> j"
    by (auto simp: ids_in_range_def list_all_iff)
  then have "filter (\<lambda>k. fst k = j) (map answer_key (answers d)) = []"
    by (simp only: filter_empty_conv)
  then show ?thesis by (simp add: answer_texts_def)
qed

lemma start_interview_inv:
  assumes "ids_in_range d" and "distinct_where_asked pf d"
  shows "ids_in_range (snd (start_interview pf reply now uid ty d))
       \<and> distinct_where_asked pf (snd (start_interview pf reply now uid ty d))"
proof -
  let ?d' = "snd (start_interview pf reply now uid ty d)"
  let ?n = "int (length (interviews d))"
  have none: "answer_texts (?n + 1) d = []"
    by (rule texts_out_of_range [OF assms(1)]) simp
  have old_ids: "\<forall>i\<in>set (interviews d). i_id i \<le> ?n"
    using assms(1) by (simp add: ids_in_range_def list_all_iff)
  have old_keys: "\<forall>k\<in>set (map answer_key (answers d)). fst k \<le> ?n"
    using assms(1) by (simp add: ids_in_range_def list_all_iff)
  have old: "\<forall>i\<in>set (interviews d).
      distinct_questions pf (i_questions i) \<longrightarrow> distinct (answer_texts (i_id i) d)"
    using assms(2) by (simp add: distinct_where_asked_def list_all_iff)
  from start_interview_shape [of pf reply now uid ty d]
  consider (same) "?d' = d"
    | (bare) iv where "i_id iv = ?n + 1" "?d' = d\<lparr>interviews := interviews d @ [iv]\<rparr>"
    | (full) iv rows where "i_id iv = ?n + 1"
        "answer_rows pf (?n + 1) (i_questions iv) = Some rows"
        "?d' = d\<lparr>interviews := interviews d @ [iv], answers := answers d @ rows\<rparr>"
    by blast
  then show ?thesis
  proof cases
    case same
    with assms show ?thesis by simp
  next
    case bare
    have texts: "answer_texts j ?d' = answer_texts j d" for j
      by (simp add: bare(2) answer_texts_def)
    have "ids_in_range ?d'"
      using old_ids old_keys bare by (fastforce simp: ids_in_range_def list_all_iff)
    moreover have "distinct_where_asked pf ?d'"
      using old none bare(1)
      by (simp add: distinct_where_asked_def list_all_iff texts) (simp add: bare(2))
    ultimately show ?thesis by simp
  next
    case full
    from answer_rows_props [OF full(2)]
    have ids: "list_all (\<lambda>a. a_interview_id a = ?n + 1) rows"
      and rows0: "\<exists>rows0. answer_rows pf 0 (i_questions iv) = Some rows0
           \<and> map a_question_text rows0 = map a_question_text rows"
      by simp_all
    have texts: "answer_texts j ?d'
        = answer_texts j d @ (if j = ?n + 1 then map a_question_text rows else [])" for j
      by (simp add: full(3) answer_texts_def texts_of_new_rows [OF ids])
    from ids have fresh: "\<forall>k\<in>set (map answer_key rows). fst k = ?n + 1"
      by (auto simp: list_all_iff answer_key_def)
    have "ids_in_range ?d'"
      using old_ids old_keys fresh full(1,3) by (fastforce simp: ids_in_range_def list_all_iff)
    moreover have "distinct_where_asked pf ?d'"
    proof -
      have new: "distinct_questions pf (i_questions iv) \<longrightarrow> distinct (answer_texts (i_id iv) ?d')"
        using rows0 none by (auto simp: texts full(1) distinct_questions_def)
      have kept: "\<forall>i\<in>set (interviews d).
          distinct_questions pf (i_questions i) \<longrightarrow> distinct (answer_texts (i_id i) ?d')"
      proof
        fix i
        assume i: "i \<in> set (interviews d)"
        with old_ids have "i_id i \<noteq> ?n + 1" by fastforce
        then have "answer_texts (i_id i) ?d' = answer_texts (i_id i) d"
          by (simp add: texts)
        with old i
        show "distinct_questions pf (i_questions i) \<longrightarrow> distinct (answer_texts (i_id i) ?d')"
          by simp
      qed
      have "interviews ?d' = interviews d @ [iv]"
        by (simp add: full(3))
      with new kept show ?thesis
        by (simp add: distinct_where_asked_def list_all_iff)
    qed
    ultimately show ?thesis by simp
  qed
qed

lemma stt_endpoint_inv:
  assumes "ids_in_range d" and "distinct_where_asked pf d"
  shows "ids_in_range (snd (stt_endpoint pf reply tr uid iid idx d))
       \<and> distinct_where_asked pf (snd (stt_endpoint pf reply tr uid iid idx d))"
proof -
  let ?d' = "snd (stt_endpoint pf reply tr uid iid idx d)"
  from stt_endpoint_keys [of pf reply tr uid iid idx d]
  have iv: "interviews ?d' = interviews d"
    and keys: "map answer_key (answers ?d') = map answer_key (answers d)
      \<or> (\<exists>k. fst k = iid \<and> find_interview d iid uid \<noteq> None
             \<and> k \<notin> set (map answer_key (answers d))
             \<and> map answer_key (answers ?d') = map answer_key (answers d) @ [k])"
    by blast+
  have range: "ids_in_range ?d'"
    using keys
  proof
    assume "map answer_key (answers ?d') = map answer_key (answers d)"
    with assms(1) iv show ?thesis
      by (simp add: ids_in_range_def)
  next
    assume "\<exists>k. fst k = iid \<and> find_interview d iid uid \<noteq> None
             \<and> k \<notin> set (map answer_key (answers d))
             \<and> map answer_key (answers ?d') = map answer_key (answers d) @ [k]"
    then obtain k where k: "fst k = iid" "find_interview d iid uid \<noteq> None"
        "map answer_key (answers ?d') = map answer_key (answers d) @ [k]"
      by blast
    from k(2) obtain i where "i \<in> set (interviews d)" "i_id i = iid"
      by (auto simp: find_interview_def find_None_iff)
    with assms(1) have "iid \<le> int (length (interviews d))"
      by (auto simp: ids_in_range_def list_all_iff)
    with assms(1) k iv show ?thesis
      by (simp add: ids_in_range_def)
  qed
  have "distinct_where_asked pf ?d'"
    using assms(2) stt_endpoint_texts [of _ d pf reply tr uid iid idx]
    by (simp add: distinct_where_asked_def list_all_iff iv)
  with range show ?thesis by simp
qed

text \<open>
  After any sequence of starts and submissions, the answer rows of every interview
  whose question set has pairwise distinct texts have pairwise distinct texts.
\<close>

lemma reachable_distinct_where_asked:
  "reachable pf d \<Longrightarrow> ids_in_range d \<and> distinct_where_asked pf d"
proof (induction rule: reachable.induct)
  case (reach_initial rs)
  show ?case by (simp add: ids_in_range_def distinct_where_asked_def)
next
  case (reach_start d reply now uid interview_type)
  then show ?case using start_interview_inv by blast
next
  case (reach_record d reply tr uid iid idx)
  then show ?case using stt_endpoint_inv by blast
qed

lemma digit_char_digit: "d < 10 \<Longrightarrow> digit_char d \<in> set ''0123456789''"
  by (drule digit_cases) (auto simp: digit_char_def)

lemma str_nat_digits: "set (str_nat n) \<subseteq> set ''0123456789''"
proof (induction n rule: str_nat.induct)
  case (1 n)
  show ?case
  proof (cases "n < 10")
    case True
    with digit_char_digit [of n] show ?thesis
      by (subst str_nat.simps) simp
  next
    case False
    with "1" digit_char_digit [of "n mod 10"] show ?thesis
      by (subst str_nat.simps) simp
  qed
qed

lemma append_sep_eq:
  assumes "c \<notin> set u" and "c \<notin> set v" and "u @ c # x = v @ c # y"
  shows "u = v"
  using assms
proof (induction u arbitrary: v)
  case Nil
  then show ?case by (cases v) auto
next
  case (Cons a u)
  then show ?case by (cases v) auto
qed

lemma placeholder_text_inj:
  assumes "''Placeholder question #'' @ str_int (int i + 1) @ '' for '' @ s
         = ''Placeholder question #'' @ str_int (int j + 1) @ '' for '' @ s'"
  shows "i = j"
proof -
  have sp: "CHR '' '' \<notin> set (str_int (int k + 1))" for k
    using str_nat_digits [of "nat (int k + 1)"] by (auto simp: str_int_def)
  from assms have "str_int (int i + 1) @ CHR '' '' # (''for '' @ s)
      = str_int (int j + 1) @ CHR '' '' # (''for '' @ s')"
    by simp
  from append_sep_eq [OF sp sp this] have "str_int (int i + 1) = str_int (int j + 1)" .
  then have "int i + 1 = int j + 1" by (rule str_int_inj)
  then show ?thesis by simp
qed

lemma those_map_texts:
  assumes "those (map f xs) = Some ys" and "\<And>x y. f x = Some y \<Longrightarrow> g y = h x"
  shows "map g ys = map h xs"
  using assms
proof (induction xs arbitrary: ys)
  case Nil
  then show ?case by simp
next
  case (Cons x xs)
  then show ?case by (auto split: option.splits)
qed

lemma those_map_bind:
  assumes "those (map f xs) = Some ys" and "those (map g ys) = Some zs"
  shows "those (map (\<lambda>x. Option.bind (f x) g) xs) = Some zs"
  using assms
proof (induction xs arbitrary: ys zs)
  case Nil
  then show ?case by simp
next
  case (Cons x xs)
  then show ?case by (auto split: option.splits)
qed

text \<open>The placeholder questions of the fallback have pairwise distinct texts.\<close>

lemma fallback_questions_distinct:
  assumes "\<And>s. text_col pf (JStr s) = Some (Some s)"
    and "reply = CallFailed \<or> reply = NotJson"
    and "generate_questions reply skills = Some qj"
  shows "distinct_questions pf qj"
proof -
  let ?text = "\<lambda>i. ''Placeholder question #'' @ str_int (int i + 1) @ '' for ''
                 @ skills ! (i mod length skills)"
  from assms(2,3) obtain qs where th: "those (map (placeholder skills) [0..<15]) = Some qs"
    and qj: "qj = JArr qs"
    by (auto simp: generate_questions_def)
  have one: "placeholder skills i = Some q \<Longrightarrow> new_answer pf 0 None q = Some row
      \<Longrightarrow> a_question_text row = Some (?text i)" for i q row
    using assms(1)
    by (auto simp: new_answer_def placeholder_def split: option.splits prod.splits if_splits)
  have inj: "inj_on (\<lambda>i. Some (?text i)) (set [0..<15])"
  proof (rule inj_onI)
    fix i j
    assume "Some (?text i) = Some (?text j)"
    then have "?text i = ?text j" by (simp only: option.inject)
    then show "i = j" by (rule placeholder_text_inj)
  qed
  show ?thesis
  proof (cases "answer_rows pf 0 qj")
    case None
    then show ?thesis by (simp add: distinct_questions_def)
  next
    case (Some rows)
    then have rows: "those (map (new_answer pf 0 None) qs) = Some rows"
      by (simp add: qj answer_rows_def)
    from those_map_bind [OF th rows]
    have "those (map (\<lambda>i. Option.bind (placeholder skills i) (new_answer pf 0 None)) [0..<15])
        = Some rows" .
    from those_map_texts [OF this, of a_question_text "\<lambda>i. Some (?text i)"] one
    have "map a_question_text rows = map (\<lambda>i. Some (?text i)) [0..<15]"
      by (auto simp: bind_eq_Some_conv)
    with inj Some show ?thesis
      by (simp add: distinct_questions_def distinct_map del: upt_Suc)
  qed
qed

text \<open>
  C8. The start of an interview stores the parsed reply of the model as it is and
  inserts one answer row per item, without the lookup by interview and question
  text that a submission does first. When the reply repeats a question text, the
  interview has two answer rows with that text after the start, and a submission
  for the second question writes into the row of the first: the second row never
  gets an answer.
\<close>

theorem duplicate_question_rows:
  "fst (start_interview plain (Json repeated_question) 100 1 ''technical'' db0) = Inr (1, 2)
   \<and> \<not> one_answer_per_question db_dup
   \<and> length (filter (\<lambda>a. a_interview_id a = 1 \<and> a_question_text a = Some ''What is a join?'')
                (answers db_dup)) = 2
   \<and> map a_answer_text (answers (snd (stt_endpoint plain CallFailed ''my answer'' 1 1 1 db_dup)))
       = [Some ''my answer'', None]"
  by code_simp

end
